theory Spec2Isabelle
  imports
    Complex_Main
    "HOL-Library.Char_ord"
    "HOL-Library.List_Lexorder"
    "HOL-Library.Product_Lexorder"
    "HOL-Library.AList"
    "HOL-Library.Sublist"
    "HOL-Library.Multiset"
begin

section \<open>The COVID pipeline: data model\<close>

text \<open>
  The assets of \<^verbatim>\<open>covid_pipeline/assets\<close> pass pandas tables to one another.
  The processed table (the result of \<^verbatim>\<open>datos_procesados\<close>, the input of both
  metrics) always has the five columns location, date, new_cases, people_vaccinated and
  population, so one of its rows is a record.

  Numbers: a float cell is \<open>real option\<close>, with \<open>None\<close> for the missing value
  (NaN, \<^verbatim>\<open>pd.NA\<close>). Arithmetic is exact: rounding and overflow of IEEE doubles are
  outside the model, and an input cell is never infinite. The quotient of two
  cells is a \<open>pyfloat\<close>, because pandas divides by zero without raising: the result is
  plus or minus infinity, or NaN for 0/0.

  The pandas operations have their documented meaning: a missing value stays missing
  through arithmetic, a rolling aggregate and \<^verbatim>\<open>dropna\<close> skip it, and
  \<^verbatim>\<open>replace\<close> with \<^verbatim>\<open>pd.NA\<close> makes a cell missing.

  Dates: a cell of the date column is classified by what \<^verbatim>\<open>pd.to_datetime\<close> makes
  of it: \<open>Day d\<close> parses to the time stamp \<open>d\<close>, \<open>NaT\<close> is a missing cell, and
  \<open>Unparseable\<close> makes the conversion raise.
\<close>

datatype date_cell = Day int | NaT | Unparseable

datatype pyfloat = NaN | Fin real | PInf | NInf

text \<open>
  The exceptions: the \<^verbatim>\<open>KeyError\<close> of \<^verbatim>\<open>_require\<close> with its message, the
  parser's error of \<^verbatim>\<open>pd.to_datetime\<close>, and the \<^verbatim>\<open>DataError\<close> of a rolling
  aggregate over a column that is not numeric. \<open>OutsideModel\<close> is no exception of the
  program: it marks the one situation this development does not follow pandas into
  (see \<open>datos_procesados\<close>).
\<close>

datatype error = KeyError string | DateParseError | DataError | OutsideModel

record prow =
  location :: string
  date :: date_cell
  new_cases :: "real option"
  people_vaccinated :: "real option"
  population :: "real option"

text \<open>\<^verbatim>\<open>df["date"] = pd.to_datetime(df["date"])\<close>: raises on the first cell it cannot
  parse, and otherwise leaves every row with its time stamp.\<close>

definition to_datetime :: "prow list \<Rightarrow> error + prow list" where
  "to_datetime df = (if Unparseable \<in> set (map date df) then Inl DateParseError else Inr df)"

subsection \<open>Group-wise operations\<close>

text \<open>
  \<^verbatim>\<open>df.groupby("location")[col]\<close> splits the column by key: a group is the list of
  the row positions that carry the key, in table order, and its series is the column
  read at those positions. \<^verbatim>\<open>.transform(f)\<close> applies \<open>f\<close> to every group's series
  and writes each result back to the row it came from.
\<close>

definition group_index :: "string list \<Rightarrow> string \<Rightarrow> nat list" where
  "group_index ks k = filter (\<lambda>i. ks ! i = k) [0..<length ks]"

definition group_series :: "string list \<Rightarrow> 'a list \<Rightarrow> string \<Rightarrow> 'a list" where
  "group_series ks vals k = map (\<lambda>i. vals ! i) (group_index ks k)"

text \<open>The position of row \<open>i\<close> inside its own group: how many earlier rows carry its key.\<close>

definition group_pos :: "string list \<Rightarrow> nat \<Rightarrow> nat" where
  "group_pos ks i = length (filter (\<lambda>j. ks ! j = ks ! i) [0..<i])"

definition transform :: "string list \<Rightarrow> 'a list \<Rightarrow> ('a list \<Rightarrow> 'b list) \<Rightarrow> 'b list" where
  "transform ks vals f =
     map (\<lambda>i. f (group_series ks vals (ks ! i)) ! group_pos ks i) [0..<length ks]"

text \<open>
  \<^verbatim>\<open>s.rolling(w, min_periods=m)\<close>: the window of position \<open>j\<close> holds the (at most)
  \<open>w\<close> entries that end at \<open>j\<close>. Missing entries are not observations: the aggregate
  is taken over the observed entries, and it is missing itself when fewer than \<open>m\<close>
  entries of the window are observed.
\<close>

definition window :: "nat \<Rightarrow> 'a list \<Rightarrow> nat \<Rightarrow> 'a list" where
  "window w s j = drop (Suc j - w) (take (Suc j) s)"

definition observed :: "'a option list \<Rightarrow> 'a list" where
  "observed win = List.map_filter (\<lambda>v. v) win"

definition rolling_sum :: "nat \<Rightarrow> nat \<Rightarrow> real option list \<Rightarrow> real option list" where
  "rolling_sum w min_periods s =
     map (\<lambda>j. let obs = observed (window w s j)
              in if min_periods \<le> length obs then Some (sum_list obs) else None)
         [0..<length s]"

definition rolling_mean :: "nat \<Rightarrow> nat \<Rightarrow> real option list \<Rightarrow> real option list" where
  "rolling_mean w min_periods s =
     map (\<lambda>j. let obs = observed (window w s j)
              in if min_periods \<le> length obs \<and> obs \<noteq> []
                 then Some (sum_list obs / real (length obs)) else None)
         [0..<length s]"

text \<open>\<^verbatim>\<open>.shift(n)\<close>: every entry moves \<open>n\<close> positions down; the first \<open>n\<close> are missing.\<close>

definition shift :: "nat \<Rightarrow> 'a option list \<Rightarrow> 'a option list" where
  "shift n s = take (length s) (replicate n None @ s)"

subsection \<open>\<^verbatim>\<open>metrica_incidencia_7d\<close> (metricas.py)\<close>

text \<open>\<^verbatim>\<open>df.sort_values(["location", "date"])\<close>: by location, then by time stamp, missing
  dates last; rows with equal keys keep their order.\<close>

fun date_key :: "date_cell \<Rightarrow> nat \<times> int" where
  "date_key (Day d) = (0, d)"
| "date_key NaT = (1, 0)"
| "date_key Unparseable = (2, 0)"

definition sort_values :: "prow list \<Rightarrow> prow list" where
  "sort_values df = sort_key (\<lambda>r. (location r, date_key (date r))) df"

text \<open>
  \<^verbatim>\<open>df["population"].replace({0: pd.NA})\<close>: cell by cell, a population of 0 becomes
  the missing value. The replacement also changes the column as a whole: as soon as one
  cell is replaced, the float column becomes a column of dtype \<^verbatim>\<open>object\<close>, and so do
  the quotient and the product computed from it.
\<close>

definition replace_zero :: "real option \<Rightarrow> real option" where
  "replace_zero v = (if v = Some 0 then None else v)"

definition object_dtype :: "real option list \<Rightarrow> bool" where
  "object_dtype col = (Some 0 \<in> set col)"

text \<open>\<^verbatim>\<open>(df["new_cases"] / df["population"].replace({0: pd.NA})) * 100000\<close>, cell by
  cell: a missing operand gives a missing result; the division is only reached with a
  divisor that \<open>replace_zero\<close> has let through.\<close>

definition incidencia_diaria :: "prow \<Rightarrow> real option" where
  "incidencia_diaria r =
     (case replace_zero (population r) of
        None \<Rightarrow> None
      | Some p \<Rightarrow> (case new_cases r of None \<Rightarrow> None | Some c \<Rightarrow> Some (c / p * 100000)))"

definition incidencia_7d_col :: "prow list \<Rightarrow> real option list" where
  "incidencia_7d_col df =
     transform (map location df) (map incidencia_diaria df) (rolling_mean 7 7)"

record incidence_row =
  inc_date :: date_cell
  inc_location :: string
  incidencia_7d :: "real option"

text \<open>
  The rolling mean refuses a column of dtype \<^verbatim>\<open>object\<close>: when a population of 0 has
  been replaced, \<^verbatim>\<open>s.rolling(7, min_periods=7).mean()\<close> raises \<^verbatim>\<open>DataError\<close> and
  the asset fails.
\<close>

definition metrica_incidencia_7d :: "prow list \<Rightarrow> error + incidence_row list" where
  "metrica_incidencia_7d datos_procesados =
     (case to_datetime datos_procesados of
        Inl e \<Rightarrow> Inl e
      | Inr df0 \<Rightarrow>
          let df = sort_values df0
          in if object_dtype (map population df) then Inl DataError
             else
               let inc7 = incidencia_7d_col df
               in Inr (map (\<lambda>(r, v). \<lparr>inc_date = date r, inc_location = location r,
                                       incidencia_7d = v\<rparr>)
                           (filter (\<lambda>(r, v). v \<noteq> None) (zip df inc7))))"

subsection \<open>\<^verbatim>\<open>metrica_factor_crec_7d\<close> (metricas.py)\<close>

text \<open>Float division as pandas does it: no exception, infinities and NaN instead.\<close>

fun fdiv :: "real option \<Rightarrow> real option \<Rightarrow> pyfloat" where
  "fdiv (Some a) (Some b) =
     (if b \<noteq> 0 then Fin (a / b) else if 0 < a then PInf else if a < 0 then NInf else NaN)"
| "fdiv _ _ = NaN"

text \<open>\<^verbatim>\<open>.replace([float("inf"), -float("inf")], pd.NA)\<close>\<close>

fun replace_inf :: "pyfloat \<Rightarrow> pyfloat" where
  "replace_inf PInf = NaN"
| "replace_inf NInf = NaN"
| "replace_inf v = v"

text \<open>The table is taken in the order it arrives: this function does not sort.\<close>

definition casos_semana_col :: "prow list \<Rightarrow> real option list" where
  "casos_semana_col df = transform (map location df) (map new_cases df) (rolling_sum 7 1)"

definition casos_semana_prev_col :: "prow list \<Rightarrow> real option list" where
  "casos_semana_prev_col df = transform (map location df) (casos_semana_col df) (shift 7)"

definition factor_crec_7d_col :: "prow list \<Rightarrow> pyfloat list" where
  "factor_crec_7d_col df =
     map replace_inf (map2 fdiv (casos_semana_col df) (casos_semana_prev_col df))"

record growth_row =
  semana_fin :: date_cell
  crec_location :: string
  casos_semana :: "real option"
  factor_crec_7d :: pyfloat

text \<open>\<^verbatim>\<open>.dropna()\<close> on the four selected columns (a location of the processed table is
  never missing).\<close>

definition growth_notna :: "growth_row \<Rightarrow> bool" where
  "growth_notna g = (semana_fin g \<noteq> NaT \<and> casos_semana g \<noteq> None \<and> factor_crec_7d g \<noteq> NaN)"

definition growth_table :: "prow list \<Rightarrow> growth_row list" where
  "growth_table df =
     map (\<lambda>(r, cs, f). \<lparr>semana_fin = date r, crec_location = location r,
                         casos_semana = cs, factor_crec_7d = f\<rparr>)
         (zip df (zip (casos_semana_col df) (factor_crec_7d_col df)))"

definition metrica_factor_crec_7d :: "prow list \<Rightarrow> error + growth_row list" where
  "metrica_factor_crec_7d datos_procesados =
     (case to_datetime datos_procesados of
        Inl e \<Rightarrow> Inl e
      | Inr df \<Rightarrow> Inr (filter growth_notna (growth_table df)))"

section \<open>Tables with arbitrary columns (datos.py)\<close>

text \<open>
  The table that \<^verbatim>\<open>leer_datos\<close> reads has whatever columns the CSV file has, and a
  label may occur more than once. Such a table is its list of column labels and its
  rows, each a list of cells in the order of the labels; a row that is shorter than the
  header has missing cells at its end, as the CSV reader leaves it. The row index is
  not modelled (every table here has the default one).

  A Python string is held as its UTF-8 bytes: the byte-order mark U+FEFF is the three
  bytes EF BB BF, and a whitespace character beyond ASCII is the two or three bytes of
  its encoding.
\<close>

datatype cell = NA | Num real | Str string

record dataframe =
  columns :: "string list"
  rows :: "cell list list"

text \<open>The alias dictionary, in the order of its items.\<close>

definition ALT :: "(string \<times> string list) list" where
  "ALT =
     [(''location'', [''location'', ''entity'', ''country'', ''country_name'',
                      ''location_name'', ''place'']),
      (''date'', [''date'', ''day'']),
      (''new_cases'', [''new_cases'', ''new_cases_daily'']),
      (''people_vaccinated'', [''people_vaccinated'', ''people_with_at_least_one_dose'']),
      (''population'', [''population'', ''pop''])]"

subsection \<open>Cleaning a header\<close>

text \<open>
  \<^verbatim>\<open>c.strip()\<close> removes the characters that Python counts as whitespace from both
  ends: U+0009 to U+000D, U+001C to U+0020, U+0085, U+00A0, U+1680, U+2000 to U+200A,
  U+2028, U+2029, U+202F, U+205F and U+3000. In UTF-8 these are single bytes (\<open>ws1\<close>),
  the two bytes C2 85 and C2 A0 (\<open>ws2\<close>), and three bytes (\<open>ws3\<close>).
\<close>

definition ws1 :: "char \<Rightarrow> bool" where
  "ws1 a = (let x = (of_char a :: nat) in (9 \<le> x \<and> x \<le> 13) \<or> (28 \<le> x \<and> x \<le> 32))"

definition ws2 :: "char \<Rightarrow> char \<Rightarrow> bool" where
  "ws2 a b =
     (let x = (of_char a :: nat); y = (of_char b :: nat)
      in x = 194 \<and> (y = 133 \<or> y = 160))"

definition ws3 :: "char \<Rightarrow> char \<Rightarrow> char \<Rightarrow> bool" where
  "ws3 a b c =
     (let x = (of_char a :: nat); y = (of_char b :: nat); z = (of_char c :: nat)
      in (x = 225 \<and> y = 154 \<and> z = 128) \<or>
         (x = 226 \<and> y = 128 \<and> ((128 \<le> z \<and> z \<le> 138) \<or> z = 168 \<or> z = 169 \<or> z = 175)) \<or>
         (x = 226 \<and> y = 129 \<and> z = 159) \<or>
         (x = 227 \<and> y = 128 \<and> z = 128))"

fun lstrip :: "string \<Rightarrow> string" where
  "lstrip (a # b # c # cs) =
     (if ws1 a then lstrip (b # c # cs)
      else if ws2 a b then lstrip (c # cs)
      else if ws3 a b c then lstrip cs
      else a # b # c # cs)"
| "lstrip [a, b] = (if ws1 a then lstrip [b] else if ws2 a b then [] else [a, b])"
| "lstrip [a] = (if ws1 a then [] else [a])"
| "lstrip [] = []"

text \<open>The same from the right end, on the reversed string (its last byte first).\<close>

fun rstrip_rev :: "string \<Rightarrow> string" where
  "rstrip_rev (a # b # c # cs) =
     (if ws1 a then rstrip_rev (b # c # cs)
      else if ws2 b a then rstrip_rev (c # cs)
      else if ws3 c b a then rstrip_rev cs
      else a # b # c # cs)"
| "rstrip_rev [a, b] = (if ws1 a then rstrip_rev [b] else if ws2 b a then [] else [a, b])"
| "rstrip_rev [a] = (if ws1 a then [] else [a])"
| "rstrip_rev [] = []"

definition strip :: "string \<Rightarrow> string" where
  "strip s = rev (rstrip_rev (rev (lstrip s)))"

definition BOM :: string where
  "BOM = [char_of (239 :: nat), char_of (187 :: nat), char_of (191 :: nat)]"

text \<open>\<^verbatim>\<open>c.replace(BOM, "")\<close> with the mark U+FEFF: every occurrence, from left to right.\<close>

fun remove_bom :: "string \<Rightarrow> string" where
  "remove_bom (a # b # c # cs) =
     (if [a, b, c] = BOM then remove_bom cs else a # remove_bom (b # c # cs))"
| "remove_bom cs = cs"

text \<open>
  \<^verbatim>\<open>.str.lower()\<close> follows the case tables of Unicode, which are no part of the
  repository: the lower-casing function is a parameter \<open>lower\<close> of everything that
  cleans a header, and what is proved holds for every such function. On a string of
  ASCII characters, \<^verbatim>\<open>str.lower\<close> is \<open>ascii_lower\<close>; the concrete tables of this
  development have ASCII headers and are evaluated with it.
\<close>

definition lower_char :: "char \<Rightarrow> char" where
  "lower_char c =
     (let n = (of_char c :: nat) in if 65 \<le> n \<and> n \<le> 90 then char_of (n + 32) else c)"

definition ascii_lower :: "string \<Rightarrow> string" where
  "ascii_lower s = map lower_char s"

text \<open>The three steps of the header clean-up, in the order of the source: strip, then
  remove the mark, then lower the case.\<close>

definition clean_header :: "(string \<Rightarrow> string) \<Rightarrow> string \<Rightarrow> string" where
  "clean_header lower c = lower (remove_bom (strip c))"

subsection \<open>\<^verbatim>\<open>_canon\<close>\<close>

text \<open>
  The loop over \<^verbatim>\<open>ALT.items()\<close>: for each canonical name, the first of its
  candidates that is a column; it is entered into \<^verbatim>\<open>rename_map\<close> when it is not
  the canonical name itself. The dictionary is an association list in insertion order,
  and \<^verbatim>\<open>rename_map[found] = canon\<close> is \<open>AList.update\<close>.
\<close>

fun rename_loop ::
  "(string \<times> string list) list \<Rightarrow> string list \<Rightarrow> (string \<times> string) list \<Rightarrow> (string \<times> string) list"
where
  "rename_loop [] cols rename_map = rename_map"
| "rename_loop ((canon, candidates) # rest) cols rename_map =
     (case find (\<lambda>c. c \<in> set cols) candidates of
        None \<Rightarrow> rename_loop rest cols rename_map
      | Some found \<Rightarrow>
          if found \<noteq> [] \<and> found \<noteq> canon
          then rename_loop rest cols (AList.update found canon rename_map)
          else rename_loop rest cols rename_map)"

text \<open>\<^verbatim>\<open>df.rename(columns=rename_map)\<close>: a new table; the labels that are keys of
  the dictionary are replaced, the cells are copied.\<close>

definition rename :: "dataframe \<Rightarrow> (string \<times> string) list \<Rightarrow> dataframe" where
  "rename df rename_map =
     df\<lparr>columns := map (\<lambda>c. case map_of rename_map c of None \<Rightarrow> c | Some c' \<Rightarrow> c')
                        (columns df)\<rparr>"

text \<open>
  \<^verbatim>\<open>_canon\<close> receives a reference to the caller's table and assigns to its
  \<^verbatim>\<open>columns\<close> attribute, so the model has a store of table objects: \<open>frames\<close> maps a
  reference to the object it denotes, and \<open>next_ref\<close> is the reference the next new
  object gets. The function returns the store after the call and the reference it
  returns: the caller's own when nothing is renamed, the new table of
  \<^verbatim>\<open>df.rename\<close> otherwise. A reference that denotes nothing has no counterpart in
  Python; the model answers \<open>None\<close>.
\<close>

record heap =
  frames :: "nat \<Rightarrow> dataframe option"
  next_ref :: nat

definition canon :: "(string \<Rightarrow> string) \<Rightarrow> heap \<Rightarrow> nat \<Rightarrow> (heap \<times> nat) option" where
  "canon lower h a =
     (case frames h a of
        None \<Rightarrow> None
      | Some df0 \<Rightarrow>
          let df = df0\<lparr>columns := map (clean_header lower) (columns df0)\<rparr>;
              h1 = h\<lparr>frames := (frames h)(a \<mapsto> df)\<rparr>;
              rename_map = rename_loop ALT (columns df) []
          in if rename_map \<noteq> []
             then Some (h1\<lparr>frames := (frames h1)(next_ref h1 \<mapsto> rename df rename_map),
                           next_ref := Suc (next_ref h1)\<rparr>, next_ref h1)
             else Some (h1, a))"

subsection \<open>\<^verbatim>\<open>_require\<close>\<close>

text \<open>Python's \<^verbatim>\<open>repr\<close> of a list of strings that need no escaping (the names that
  \<^verbatim>\<open>_require\<close> and the checks report are taken from fixed lists of such names).\<close>

definition repr_str :: "string \<Rightarrow> string" where
  "repr_str s = [CHR 0x27] @ s @ [CHR 0x27]"

fun join :: "string \<Rightarrow> string list \<Rightarrow> string" where
  "join sep [] = []"
| "join sep [s] = s"
| "join sep (s # t # ss) = s @ sep @ join sep (t # ss)"

definition repr_list :: "string list \<Rightarrow> string" where
  "repr_list xs = ''['' @ join '', '' (map repr_str xs) @ '']''"

definition require :: "dataframe \<Rightarrow> string list \<Rightarrow> error + unit" where
  "require df cols =
     (let missing = filter (\<lambda>c. c \<notin> set (columns df)) cols
      in if missing \<noteq> []
         then Inl (KeyError (''Faltan columnas requeridas tras normalizar: '' @ repr_list missing))
         else Inr ())"

subsection \<open>\<^verbatim>\<open>datos_procesados\<close>\<close>

text \<open>The two countries, from the environment with their defaults.\<close>

definition PAIS_BASE :: "(string \<Rightarrow> string option) \<Rightarrow> string" where
  "PAIS_BASE env = (case env ''PAIS_BASE'' of None \<Rightarrow> ''Ecuador'' | Some v \<Rightarrow> v)"

definition PAIS_COMPARATIVO :: "(string \<Rightarrow> string option) \<Rightarrow> string" where
  "PAIS_COMPARATIVO env = (case env ''PAIS_COMPARATIVO'' of None \<Rightarrow> ''Peru'' | Some v \<Rightarrow> v)"

definition PAISES :: "(string \<Rightarrow> string option) \<Rightarrow> string list" where
  "PAISES env = [PAIS_BASE env, PAIS_COMPARATIVO env]"

text \<open>
  Selection by label takes every column that carries the label: \<open>positions\<close> lists
  them in table order, and \<open>row_key\<close> reads the cells of a row under a list of labels
  (\<^verbatim>\<open>subset=...\<close>, \<^verbatim>\<open>df[cols]\<close>).
\<close>

definition positions :: "dataframe \<Rightarrow> string \<Rightarrow> nat list" where
  "positions df c = filter (\<lambda>i. columns df ! i = c) [0..<length (columns df)]"

definition cell_at :: "cell list \<Rightarrow> nat \<Rightarrow> cell" where
  "cell_at r i = (if i < length r then r ! i else NA)"

definition row_key :: "dataframe \<Rightarrow> string list \<Rightarrow> cell list \<Rightarrow> cell list" where
  "row_key df labels r = concat (map (\<lambda>c. map (cell_at r) (positions df c)) labels)"

text \<open>\<^verbatim>\<open>df.dropna(subset=...)\<close>: the rows without a missing cell under the labels.\<close>

definition dropna :: "dataframe \<Rightarrow> string list \<Rightarrow> dataframe" where
  "dropna df labels = df\<lparr>rows := filter (\<lambda>r. NA \<notin> set (row_key df labels r)) (rows df)\<rparr>"

text \<open>\<^verbatim>\<open>df.drop_duplicates(subset=...)\<close>: of the rows with one key, the first stays
  (two missing cells count as equal).\<close>

fun first_of_key :: "'k list \<Rightarrow> ('a \<Rightarrow> 'k) \<Rightarrow> 'a list \<Rightarrow> 'a list" where
  "first_of_key seen key [] = []"
| "first_of_key seen key (r # rs) =
     (if key r \<in> set seen then first_of_key seen key rs
      else r # first_of_key (key r # seen) key rs)"

definition drop_duplicates :: "dataframe \<Rightarrow> string list \<Rightarrow> dataframe" where
  "drop_duplicates df labels = df\<lparr>rows := first_of_key [] (row_key df labels) (rows df)\<rparr>"

text \<open>\<^verbatim>\<open>df[df["location"].isin(PAISES)]\<close>, for a table with one column labelled
  location: the rows whose location is one of the countries.\<close>

definition isin_location :: "dataframe \<Rightarrow> string list \<Rightarrow> dataframe" where
  "isin_location df paises =
     df\<lparr>rows := filter (\<lambda>r. row_key df [''location''] r \<in> set (map (\<lambda>p. [Str p]) paises))
                      (rows df)\<rparr>"

text \<open>\<^verbatim>\<open>df[cols]\<close>: the columns under the labels, in the order of the labels; a label
  that several columns carry gives all of them.\<close>

definition select_columns :: "dataframe \<Rightarrow> string list \<Rightarrow> dataframe" where
  "select_columns df cols =
     \<lparr>columns = concat (map (\<lambda>c. map (\<lambda>i. c) (positions df c)) cols),
      rows = map (row_key df cols) (rows df)\<rparr>"

definition required_columns :: "string list" where
  "required_columns = [''location'', ''date'', ''new_cases'', ''people_vaccinated'', ''population'']"

text \<open>
  When several columns are labelled location, \<^verbatim>\<open>df["location"]\<close> is a table and not
  a column, and indexing with the flags of \<^verbatim>\<open>isin\<close> no longer selects rows. This
  development does not follow pandas there: the result is \<open>OutsideModel\<close>, and nothing
  is stated about such a table beyond the check of \<^verbatim>\<open>_require\<close>, which comes first.
\<close>

definition datos_procesados ::
  "(string \<Rightarrow> string option) \<Rightarrow> dataframe \<Rightarrow> error + dataframe" where
  "datos_procesados env leer_datos =
     (case require leer_datos required_columns of
        Inl e \<Rightarrow> Inl e
      | Inr _ \<Rightarrow>
          let df = dropna leer_datos [''new_cases'', ''people_vaccinated''];
              df = drop_duplicates df [''location'', ''date'']
          in if length (positions df ''location'') \<noteq> 1 then Inl OutsideModel
             else Inr (select_columns (isin_location df (PAISES env)) required_columns))"

section \<open>The data-quality checks (checks.py)\<close>

record asset_check_result =
  passed :: bool
  description :: string

definition columns_missing :: "dataframe \<Rightarrow> string list \<Rightarrow> string list" where
  "columns_missing df cols = filter (\<lambda>c. c \<notin> set (columns df)) cols"

text \<open>\<^verbatim>\<open>df.duplicated(subset=...)\<close>: one flag per row, set when an earlier row has the
  same cells under the labels.\<close>

fun seen_before :: "'k list \<Rightarrow> 'k list \<Rightarrow> bool list" where
  "seen_before seen [] = []"
| "seen_before seen (k # ks) = (k \<in> set seen) # seen_before (k # seen) ks"

definition duplicated :: "dataframe \<Rightarrow> string list \<Rightarrow> bool list" where
  "duplicated df labels = seen_before [] (map (row_key df labels) (rows df))"

text \<open>The decimal digits of a count, as an f-string prints it.\<close>

fun str_nat :: "nat \<Rightarrow> string" where
  "str_nat n =
     (if n < 10 then [char_of (48 + n)] else str_nat (n div 10) @ [char_of (48 + n mod 10)])"

definition unique_loc_date :: "dataframe \<Rightarrow> asset_check_result" where
  "unique_loc_date leer_datos =
     (let need = [''location'', ''date''];
          miss = columns_missing leer_datos need
      in if miss \<noteq> []
         then \<lparr>passed = False, description = ''Faltan columnas: '' @ repr_list miss\<rparr>
         else let dup = length (filter (\<lambda>b. b) (duplicated leer_datos need))
              in \<lparr>passed = (dup = 0),
                  description = ''duplicados (location,date): '' @ str_nat dup\<rparr>)"

section \<open>Notions the claims are stated with\<close>

text \<open>The rows of one entity in chronological order (missing dates last, rows of one
  date in arrival order).\<close>

definition entity_rows :: "prow list \<Rightarrow> string \<Rightarrow> prow list" where
  "entity_rows df e = sort_key (\<lambda>r. date_key (date r)) (filter (\<lambda>r. location r = e) df)"

text \<open>The label that the renaming of \<^verbatim>\<open>_canon\<close> gives to a column, for a table
  whose cleaned labels are \<open>cols\<close>.\<close>

definition renamed :: "string list \<Rightarrow> string \<Rightarrow> string" where
  "renamed cols c = (case map_of (rename_loop ALT cols []) c of None \<Rightarrow> c | Some c' \<Rightarrow> c')"

text \<open>A row of a raw table with its new cases and its vaccination count present, and a
  row of one of the two configured countries.\<close>

definition complete_row :: "dataframe \<Rightarrow> cell list \<Rightarrow> bool" where
  "complete_row df r = (NA \<notin> set (row_key df [''new_cases'', ''people_vaccinated''] r))"

definition selected_country :: "(string \<Rightarrow> string option) \<Rightarrow> dataframe \<Rightarrow> cell list \<Rightarrow> bool" where
  "selected_country env df r =
     (row_key df [''location''] r \<in> set (map (\<lambda>p. [Str p]) (PAISES env)))"

text \<open>
  The processed table as the metrics receive it. A row of the processed table has the
  five cells location, date, new_cases, people_vaccinated, population; the metrics read
  the three numbers as floats and \<^verbatim>\<open>pd.to_datetime\<close> reads the date. What the
  date parser makes of a date cell is the parameter \<open>stamp\<close>. A row with a string in a
  number column, or without a location string, has no reading (such a table does not
  come out of \<^verbatim>\<open>leer_datos\<close>, which coerces the number columns).
\<close>

fun number_of :: "cell \<Rightarrow> real option option" where
  "number_of NA = Some None"
| "number_of (Num x) = Some (Some x)"
| "number_of (Str s) = None"

fun as_prow :: "(cell \<Rightarrow> date_cell) \<Rightarrow> cell list \<Rightarrow> prow option" where
  "as_prow stamp [Str l, d, nc, pv, pop] =
     (case (number_of nc, number_of pv, number_of pop) of
        (Some n, Some v, Some p) \<Rightarrow>
          Some \<lparr>location = l, date = stamp d, new_cases = n, people_vaccinated = v,
                population = p\<rparr>
      | _ \<Rightarrow> None)"
| "as_prow stamp r = None"

definition processed_rows :: "(cell \<Rightarrow> date_cell) \<Rightarrow> dataframe \<Rightarrow> prow list option" where
  "processed_rows stamp df = those (map (as_prow stamp) (rows df))"

section \<open>Concrete tables\<close>

text \<open>A processed row with the given location, day, new cases and population (the
  vaccination count plays no part in the metrics).\<close>

definition row_of :: "string \<Rightarrow> int \<Rightarrow> real \<Rightarrow> real \<Rightarrow> prow" where
  "row_of l d c p =
     \<lparr>location = l, date = Day d, new_cases = Some c, people_vaccinated = Some 0,
      population = Some p\<rparr>"

text \<open>Eight consecutive days of one country: one case a day, two on the eighth.\<close>

definition eight_days :: "prow list" where
  "eight_days =
     [row_of ''Ecuador'' 1 1 1000000, row_of ''Ecuador'' 2 1 1000000,
      row_of ''Ecuador'' 3 1 1000000, row_of ''Ecuador'' 4 1 1000000,
      row_of ''Ecuador'' 5 1 1000000, row_of ''Ecuador'' 6 1 1000000,
      row_of ''Ecuador'' 7 1 1000000, row_of ''Ecuador'' 8 2 1000000]"

text \<open>Eight consecutive days: one case on the first day, none afterwards.\<close>

definition outbreak_over :: "prow list" where
  "outbreak_over =
     [row_of ''Ecuador'' 1 1 1000000, row_of ''Ecuador'' 2 0 1000000,
      row_of ''Ecuador'' 3 0 1000000, row_of ''Ecuador'' 4 0 1000000,
      row_of ''Ecuador'' 5 0 1000000, row_of ''Ecuador'' 6 0 1000000,
      row_of ''Ecuador'' 7 0 1000000, row_of ''Ecuador'' 8 0 1000000]"

text \<open>Seven consecutive days of one country, the first with population 0.\<close>

definition zero_population_week :: "prow list" where
  "zero_population_week =
     [row_of ''Ecuador'' 1 1 0, row_of ''Ecuador'' 2 1 100000,
      row_of ''Ecuador'' 3 1 100000, row_of ''Ecuador'' 4 1 100000,
      row_of ''Ecuador'' 5 1 100000, row_of ''Ecuador'' 6 1 100000,
      row_of ''Ecuador'' 7 1 100000]"

text \<open>Thirteen consecutive days of one country with population 100000 and \<open>d\<close> new cases
  on day \<open>d\<close>, so that the daily incidence of day \<open>d\<close> is \<open>d\<close>.\<close>

definition thirteen_days :: "prow list" where
  "thirteen_days = map (\<lambda>d. row_of ''Ecuador'' (int d) (real d) 100000) [1..<14]"

text \<open>Eight days of Ecuador and one of Peru, in no order: day \<open>d\<close> of Ecuador has
  \<open>d\<close> new cases and population 100000.\<close>

definition shuffled_days :: "prow list" where
  "shuffled_days =
     [row_of ''Ecuador'' 5 5 100000, row_of ''Ecuador'' 2 2 100000,
      row_of ''Peru'' 1 9 100000, row_of ''Ecuador'' 8 8 100000,
      row_of ''Ecuador'' 1 1 100000, row_of ''Ecuador'' 7 7 100000,
      row_of ''Ecuador'' 3 3 100000, row_of ''Ecuador'' 6 6 100000,
      row_of ''Ecuador'' 4 4 100000]"

text \<open>A store with one table whose two headers differ in letter case only. And a store
  with two tables: one whose headers are aliases with a leading blank and capitals,
  and one whose headers are clean canonical names.\<close>

definition clashing_headers :: heap where
  "clashing_headers =
     \<lparr>frames = (\<lambda>_. None)(0 \<mapsto> \<lparr>columns = [''Date'', ''date''],
                                    rows = [[Str ''2021-01-01'', Str ''2021-01-01'']]\<rparr>),
      next_ref = 1\<rparr>"

definition alias_headers :: heap where
  "alias_headers =
     \<lparr>frames = (\<lambda>_. None)
        (0 \<mapsto> \<lparr>columns = ['' Entity'', ''Day'', ''new_cases''],
                rows = [[Str ''Peru'', Str ''2021-01-01'', Num 3]]\<rparr>,
         1 \<mapsto> \<lparr>columns = [''location'', ''date''],
                rows = [[Str ''Ecuador'', Str ''2021-01-02'']]\<rparr>),
      next_ref = 2\<rparr>"

text \<open>A raw table with the five canonical columns: a row without population, a second
  row for the same country and date, a row without new cases, a row of a third country
  and a row with population 0. The same table with a negative population in place of
  the 0. And a table that lacks two of the columns.\<close>

definition raw_table :: dataframe where
  "raw_table =
     \<lparr>columns = [''location'', ''date'', ''new_cases'', ''people_vaccinated'', ''population''],
      rows = [[Str ''Ecuador'', Str ''2021-01-01'', Num 5, Num 10, NA],
              [Str ''Ecuador'', Str ''2021-01-01'', Num 6, Num 10, Num 7],
              [Str ''Ecuador'', Str ''2021-01-02'', NA, Num 10, Num 7],
              [Str ''Chile'', Str ''2021-01-02'', Num 1, Num 10, Num 7],
              [Str ''Peru'', Str ''2021-01-02'', Num 1, Num 10, Num 0]]\<rparr>"

definition raw_table_negative :: dataframe where
  "raw_table_negative =
     \<lparr>columns = [''location'', ''date'', ''new_cases'', ''people_vaccinated'', ''population''],
      rows = [[Str ''Ecuador'', Str ''2021-01-01'', Num 5, Num 10, NA],
              [Str ''Ecuador'', Str ''2021-01-01'', Num 6, Num 10, Num 7],
              [Str ''Ecuador'', Str ''2021-01-02'', NA, Num 10, Num 7],
              [Str ''Chile'', Str ''2021-01-02'', Num 1, Num 10, Num 7],
              [Str ''Peru'', Str ''2021-01-02'', Num 1, Num 10, Num (- 3)]]\<rparr>"

definition short_table :: dataframe where
  "short_table =
     \<lparr>columns = [''location'', ''date'', ''people_vaccinated''],
      rows = [[Str ''Ecuador'', Str ''2021-01-01'', Num 10],
              [Str ''Peru'', Str ''2021-01-01'', Num 4]]\<rparr>"

text \<open>What the date parser makes of the date cells of these tables (days since
  1970-01-01).\<close>

fun stamp_2021 :: "cell \<Rightarrow> date_cell" where
  "stamp_2021 NA = NaT"
| "stamp_2021 (Str s) =
     (if s = ''2021-01-01'' then Day 18628
      else if s = ''2021-01-02'' then Day 18629 else Unparseable)"
| "stamp_2021 (Num x) = Unparseable"

text \<open>Tables for the uniqueness check: location and date as the last two of three
  columns, with the second and the third row equal in both; and a table with two
  columns labelled date, whose rows agree in the first of them only.\<close>

definition repeated_key_table :: dataframe where
  "repeated_key_table =
     \<lparr>columns = [''new_cases'', ''date'', ''location''],
      rows = [[Num 1, Str ''2021-01-01'', Str ''Peru''],
              [Num 2, Str ''2021-01-02'', Str ''Peru''],
              [Num 3, Str ''2021-01-02'', Str ''Peru'']]\<rparr>"

definition two_date_columns_table :: dataframe where
  "two_date_columns_table =
     \<lparr>columns = [''location'', ''date'', ''date''],
      rows = [[Str ''Peru'', Str ''2021-01-01'', Str ''2021-01-01''],
              [Str ''Peru'', Str ''2021-01-01'', Str ''2021-01-02'']]\<rparr>"

section \<open>Facts about the group-wise operations\<close>

lemma length_transform: "length (transform ks vals f) = length ks"
  by (simp add: transform_def)

lemma nth_transform:
  "i < length ks \<Longrightarrow>
   transform ks vals f ! i = f (group_series ks vals (ks ! i)) ! group_pos ks i"
  by (simp add: transform_def)

lemma length_group_series: "length (group_series ks vals k) = length (group_index ks k)"
  by (simp add: group_series_def)

lemma upt_split_at: "i < n \<Longrightarrow> [0..<n] = [0..<i] @ i # [Suc i..<n]"
proof -
  assume a: "i < n"
  have "[0..<i + (n - i)] = [0..<i] @ [i..<i + (n - i)]"
    by (rule upt_add_eq_append) simp
  moreover have "[i..<n] = i # [Suc i..<n]"
    using a by (simp add: upt_conv_Cons)
  ultimately show ?thesis using a by simp
qed

lemma group_index_split:
  assumes "i < length ks"
  shows "group_index ks (ks ! i) =
         filter (\<lambda>j. ks ! j = ks ! i) [0..<i] @ i # filter (\<lambda>j. ks ! j = ks ! i) [Suc i..<length ks]"
  by (simp add: group_index_def upt_split_at [OF assms])

lemma group_pos_less: "i < length ks \<Longrightarrow> group_pos ks i < length (group_index ks (ks ! i))"
  by (simp add: group_index_split group_pos_def)

lemma group_index_nth_pos: "i < length ks \<Longrightarrow> group_index ks (ks ! i) ! group_pos ks i = i"
  by (simp add: group_index_split group_pos_def nth_append)

lemma group_series_nth_pos:
  "i < length ks \<Longrightarrow> group_series ks vals (ks ! i) ! group_pos ks i = vals ! i"
  by (simp add: group_series_def group_pos_less group_index_nth_pos)

lemma filter_upt_positions:
  "map (\<lambda>i. length (filter P [0..<i])) (filter P [0..<n]) = [0..<length (filter P [0..<n])]"
  by (induction n) auto

lemma map_group_pos_index: "map (group_pos ks) (group_index ks k) = [0..<length (group_index ks k)]"
proof -
  have "map (group_pos ks) (group_index ks k) =
        map (\<lambda>i. length (filter (\<lambda>j. ks ! j = k) [0..<i])) (group_index ks k)"
    by (rule map_cong) (auto simp: group_index_def group_pos_def)
  then show ?thesis
    by (simp add: group_index_def filter_upt_positions)
qed

lemma group_series_transform:
  assumes "\<And>s. length (f s) = length s"
  shows "group_series ks (transform ks vals f) k = f (group_series ks vals k)"
proof -
  let ?S = "group_series ks vals k"
  have "group_series ks (transform ks vals f) k =
        map (\<lambda>i. f ?S ! group_pos ks i) (group_index ks k)"
    unfolding group_series_def [of ks "transform ks vals f"]
    by (rule map_cong) (auto simp: group_index_def nth_transform)
  also have "\<dots> = map (\<lambda>p. f ?S ! p) (map (group_pos ks) (group_index ks k))"
    by simp
  also have "\<dots> = map (\<lambda>p. f ?S ! p) [0..<length (f ?S)]"
    by (simp only: map_group_pos_index assms length_group_series)
  also have "\<dots> = f ?S"
    by (rule map_nth)
  finally show ?thesis .
qed

lemma filter_as_index:
  "filter P xs = map (\<lambda>i. xs ! i) (filter (\<lambda>i. P (xs ! i)) [0..<length xs])"
proof (induction xs rule: rev_induct)
  case Nil
  show ?case by simp
next
  case (snoc x xs)
  have "map (\<lambda>i. (xs @ [x]) ! i) (filter (\<lambda>i. P ((xs @ [x]) ! i)) [0..<length xs]) =
        map (\<lambda>i. xs ! i) (filter (\<lambda>i. P (xs ! i)) [0..<length xs])"
    by (rule map_cong [OF filter_cong]) (auto simp: nth_append)
  with snoc show ?case by simp
qed

lemma filter_location_index:
  "filter (\<lambda>r. f r = k) xs = map (\<lambda>i. xs ! i) (group_index (map f xs) k)"
proof -
  have "filter (\<lambda>i. f (xs ! i) = k) [0..<length xs] = group_index (map f xs) k"
    unfolding group_index_def by (rule filter_cong) auto
  then show ?thesis
    using filter_as_index [of "\<lambda>r. f r = k" xs] by simp
qed

lemma group_series_map:
  "group_series (map f xs) (map g xs) k = map g (filter (\<lambda>r. f r = k) xs)"
  unfolding filter_location_index group_series_def
  by (auto simp: group_index_def)

lemma zip_map_same: "zip (map f xs) (map g xs) = map (\<lambda>x. (f x, g x)) xs"
  by (induction xs) auto

lemma filter_zip_group:
  assumes "length col = length xs"
  shows "filter (\<lambda>(r, v). f r = k) (zip xs col) =
         zip (filter (\<lambda>r. f r = k) xs) (group_series (map f xs) col k)"
proof -
  have "filter (\<lambda>(r, v). f r = k) (zip xs col) =
        map (\<lambda>i. zip xs col ! i) (group_index (map f (map fst (zip xs col))) k)"
    using filter_location_index [of "\<lambda>p. f (fst p)" k "zip xs col"]
    by (simp add: case_prod_unfold comp_def)
  also have "map fst (zip xs col) = xs"
    using assms by simp
  also have "map (\<lambda>i. zip xs col ! i) (group_index (map f xs) k) =
             map (\<lambda>i. (xs ! i, col ! i)) (group_index (map f xs) k)"
    by (rule map_cong) (auto simp: group_index_def assms)
  also have "\<dots> = zip (map (\<lambda>i. xs ! i) (group_index (map f xs) k))
                       (map (\<lambda>i. col ! i) (group_index (map f xs) k))"
    by (simp only: zip_map_same)
  finally show ?thesis
    by (simp add: filter_location_index group_series_def)
qed

section \<open>Facts about rolling windows and shifts\<close>

lemma length_rolling_sum: "length (rolling_sum w m s) = length s"
  by (simp add: rolling_sum_def)

lemma length_rolling_mean: "length (rolling_mean w m s) = length s"
  by (simp add: rolling_mean_def)

lemma length_shift: "length (shift n s) = length s"
  by (simp add: shift_def)

lemma nth_shift: "j < length s \<Longrightarrow> shift n s ! j = (if j < n then None else s ! (j - n))"
  by (simp add: shift_def nth_append)

lemma length_window: "j < length s \<Longrightarrow> length (window w s j) = min w (Suc j)"
  by (auto simp: window_def)

lemma observed_Cons: "observed (v # vs) = (case v of None \<Rightarrow> observed vs | Some x \<Rightarrow> x # observed vs)"
  by (simp add: observed_def List.map_filter_simps split: option.splits)

lemma observed_Nil: "observed [] = []"
  by (simp add: observed_def List.map_filter_simps)

lemma length_observed_le: "length (observed win) \<le> length win"
  by (induction win) (auto simp: observed_Cons observed_Nil split: option.splits)

lemma observed_all: "None \<notin> set win \<Longrightarrow> observed win = map the win"
proof (induction win)
  case Nil
  show ?case by (simp add: observed_Nil)
next
  case (Cons v vs)
  then show ?case by (cases v) (simp_all add: observed_Cons)
qed

lemma observed_missing: "None \<in> set win \<Longrightarrow> length (observed win) < length win"
proof (induction win)
  case Nil
  then show ?case by simp
next
  case (Cons v vs)
  show ?case
  proof (cases v)
    case None
    then show ?thesis
      using length_observed_le [of vs] by (simp add: observed_Cons)
  next
    case (Some x)
    with Cons show ?thesis by (simp add: observed_Cons)
  qed
qed

lemma nth_rolling_mean_7:
  assumes "j < length s"
  shows "rolling_mean 7 7 s ! j =
         (if 6 \<le> j \<and> None \<notin> set (window 7 s j)
          then Some (sum_list (map the (window 7 s j)) / 7) else None)"
proof -
  let ?w = "window 7 s j"
  have len: "length ?w = min 7 (Suc j)"
    using assms by (rule length_window)
  have nth: "rolling_mean 7 7 s ! j =
        (let obs = observed ?w in if 7 \<le> length obs \<and> obs \<noteq> []
           then Some (sum_list obs / real (length obs)) else None)"
    using assms by (simp add: rolling_mean_def)
  show ?thesis
  proof (cases "6 \<le> j \<and> None \<notin> set ?w")
    case True
    then have "observed ?w = map the ?w" by (simp add: observed_all)
    moreover have "length ?w = 7" using True len by simp
    ultimately show ?thesis using True nth by (auto simp: Let_def)
  next
    case False
    have "length (observed ?w) < 7"
    proof (cases "6 \<le> j")
      case True
      with False have "None \<in> set ?w" by simp
      then have "length (observed ?w) < length ?w" by (rule observed_missing)
      then show ?thesis using len by simp
    next
      case False
      then show ?thesis using length_observed_le [of ?w] len by simp
    qed
    then show ?thesis using False nth by (simp add: Let_def)
  qed
qed

lemma window_first_seven: "window 7 s 6 = take 7 s"
  by (simp add: window_def)

lemma nth_rolling_sum:
  "j < length s \<Longrightarrow>
   rolling_sum w m s ! j =
     (if m \<le> length (observed (window w s j)) then Some (sum_list (observed (window w s j))) else None)"
  by (simp add: rolling_sum_def Let_def)

lemma rolling_sum_first: "0 < length s \<Longrightarrow> rolling_sum 7 1 s ! 0 = s ! 0"
  by (cases s) (auto simp: nth_rolling_sum window_def observed_Cons observed_Nil split: option.splits)

section \<open>Facts about the growth table\<close>

lemma group_pos_less_map:
  "i < length xs \<Longrightarrow> group_pos (map f xs) i < length (group_index (map f xs) (f (xs ! i)))"
  using group_pos_less [of i "map f xs"] by simp

lemma length_casos_semana_col: "length (casos_semana_col df) = length df"
  by (simp add: casos_semana_col_def length_transform)

lemma length_casos_semana_prev_col: "length (casos_semana_prev_col df) = length df"
  by (simp add: casos_semana_prev_col_def length_transform)

lemma length_factor_crec_7d_col: "length (factor_crec_7d_col df) = length df"
  by (simp add: factor_crec_7d_col_def length_casos_semana_col length_casos_semana_prev_col)

lemma nth_factor_crec_7d_col:
  "i < length df \<Longrightarrow>
   factor_crec_7d_col df ! i =
     replace_inf (fdiv (casos_semana_col df ! i) (casos_semana_prev_col df ! i))"
  by (simp add: factor_crec_7d_col_def length_casos_semana_col length_casos_semana_prev_col)

lemma length_growth_table: "length (growth_table df) = length df"
  by (simp add: growth_table_def length_casos_semana_col length_factor_crec_7d_col)

lemma nth_growth_table:
  "i < length df \<Longrightarrow>
   growth_table df ! i =
     \<lparr>semana_fin = date (df ! i), crec_location = location (df ! i),
      casos_semana = casos_semana_col df ! i, factor_crec_7d = factor_crec_7d_col df ! i\<rparr>"
  by (simp add: growth_table_def length_casos_semana_col length_factor_crec_7d_col)

lemma nth_casos_semana_col:
  assumes "i < length df"
  shows "casos_semana_col df ! i =
         rolling_sum 7 1 (group_series (map location df) (map new_cases df) (location (df ! i)))
           ! group_pos (map location df) i"
  using assms by (simp add: casos_semana_col_def nth_transform)

lemma nth_casos_semana_prev_col:
  assumes "i < length df"
  shows "casos_semana_prev_col df ! i =
         (if group_pos (map location df) i < 7 then None
          else group_series (map location df) (casos_semana_col df) (location (df ! i))
                 ! (group_pos (map location df) i - 7))"
proof -
  let ?ks = "map location df"
  have "group_pos ?ks i < length (group_series ?ks (casos_semana_col df) (?ks ! i))"
    using assms by (simp add: length_group_series group_pos_less_map)
  then show ?thesis
    using assms by (simp add: casos_semana_prev_col_def nth_transform nth_shift)
qed

lemma replace_inf_defined: "replace_inf v \<noteq> NaN \<Longrightarrow> \<exists>x. v = Fin x"
  by (cases v) simp_all

lemma fdiv_Fin: "fdiv a b = Fin x \<Longrightarrow> \<exists>c p. a = Some c \<and> b = Some p \<and> p \<noteq> 0 \<and> x = c / p"
  by (cases a; cases b) (auto split: if_splits)

lemma growth_notna_factor:
  assumes "i < length df" and "growth_notna (growth_table df ! i)"
  shows "\<exists>c p. casos_semana_col df ! i = Some c \<and> casos_semana_prev_col df ! i = Some p \<and>
           p \<noteq> 0 \<and> factor_crec_7d (growth_table df ! i) = Fin (c / p)"
proof -
  let ?q = "fdiv (casos_semana_col df ! i) (casos_semana_prev_col df ! i)"
  have "replace_inf ?q \<noteq> NaN"
    using assms by (simp add: growth_notna_def nth_growth_table nth_factor_crec_7d_col)
  then obtain x where x: "?q = Fin x"
    using replace_inf_defined by blast
  then obtain c p where "casos_semana_col df ! i = Some c" "casos_semana_prev_col df ! i = Some p"
      "p \<noteq> 0" "x = c / p"
    using fdiv_Fin by blast
  then show ?thesis
    using assms(1) x by (simp add: nth_growth_table nth_factor_crec_7d_col)
qed

lemma metrica_factor_crec_7d_Inr:
  "metrica_factor_crec_7d datos = Inr out \<Longrightarrow> out = filter growth_notna (growth_table datos)"
  by (auto simp: metrica_factor_crec_7d_def to_datetime_def split: if_splits)

lemma growth_notna_pos:
  assumes "i < length df" and "growth_notna (growth_table df ! i)"
  shows "7 \<le> group_pos (map location df) i"
proof (rule ccontr)
  assume "\<not> 7 \<le> group_pos (map location df) i"
  then have "casos_semana_prev_col df ! i = None"
    using assms(1) by (simp add: nth_casos_semana_prev_col)
  then show False
    using growth_notna_factor [OF assms] by auto
qed

lemma growth_notna_sum:
  assumes "i < length df" and "growth_notna (growth_table df ! i)"
  shows "casos_semana_col df ! i =
           Some (sum_list (observed (window 7
             (group_series (map location df) (map new_cases df) (location (df ! i)))
             (group_pos (map location df) i)))) \<and>
         length (window 7
             (group_series (map location df) (map new_cases df) (location (df ! i)))
             (group_pos (map location df) i)) = 7"
proof -
  let ?ks = "map location df"
  let ?S = "group_series ?ks (map new_cases df) (location (df ! i))"
  let ?p = "group_pos ?ks i"
  have p: "?p < length ?S"
    using assms(1) by (simp add: length_group_series group_pos_less_map)
  obtain c where "casos_semana_col df ! i = Some c"
    using growth_notna_factor [OF assms] by auto
  then have "casos_semana_col df ! i = Some (sum_list (observed (window 7 ?S ?p)))"
    using p assms(1) by (auto simp: nth_casos_semana_col nth_rolling_sum split: if_splits)
  moreover have "length (window 7 ?S ?p) = 7"
    using growth_notna_pos [OF assms] p by (simp add: length_window)
  ultimately show ?thesis by simp
qed

lemma casos_semana_first_row:
  assumes "i < length df" and "group_pos (map location df) i = 0"
  shows "casos_semana_col df ! i = new_cases (df ! i)"
proof -
  let ?ks = "map location df"
  let ?S = "group_series ?ks (map new_cases df) (?ks ! i)"
  have "group_pos ?ks i < length ?S"
    using assms(1) by (simp add: length_group_series group_pos_less_map)
  then have p: "0 < length ?S"
    using assms by simp
  have "?S ! group_pos ?ks i = map new_cases df ! i"
    using assms(1) group_series_nth_pos [of i ?ks "map new_cases df"] by simp
  then have "?S ! 0 = new_cases (df ! i)"
    using assms by simp
  moreover have "casos_semana_col df ! i = rolling_sum 7 1 ?S ! 0"
    using assms by (simp add: nth_casos_semana_col)
  ultimately show ?thesis
    using rolling_sum_first [OF p] by simp
qed

lemma length_group_index_filter:
  "length (group_index (map f xs) k) = length (filter (\<lambda>r. f r = k) xs)"
  by (simp add: filter_location_index)

section \<open>Facts about the incidence table\<close>

lemma insort_key_fst_const:
  fixes g :: "'a \<Rightarrow> 'b::linorder" and c :: "'c::linorder"
  assumes "\<forall>y\<in>set (x # ys). f y = (c, g y)"
  shows "insort_key f x ys = insort_key g x ys"
  using assms by (induction ys) auto

lemma sort_key_fst_const:
  fixes g :: "'a \<Rightarrow> 'b::linorder" and c :: "'c::linorder"
  assumes "\<forall>y\<in>set xs. f y = (c, g y)"
  shows "sort_key f xs = sort_key g xs"
  using assms
proof (induction xs)
  case Nil
  show ?case by simp
next
  case (Cons x xs)
  then have "sort_key f xs = sort_key g xs" by simp
  moreover have "insort_key f x (sort_key g xs) = insort_key g x (sort_key g xs)"
    using Cons.prems by (intro insort_key_fst_const [where c = c]) simp
  ultimately show ?case by simp
qed

lemma filter_sort_values:
  "filter (\<lambda>r. location r = e) (sort_values df) = entity_rows df e"
proof -
  have "filter (\<lambda>r. location r = e) (sort_values df) =
        sort_key (\<lambda>r. (location r, date_key (date r))) (filter (\<lambda>r. location r = e) df)"
    by (simp add: sort_values_def filter_sort)
  also have "\<dots> = sort_key (\<lambda>r. date_key (date r)) (filter (\<lambda>r. location r = e) df)"
    by (rule sort_key_fst_const [where c = e]) simp
  finally show ?thesis by (simp add: entity_rows_def)
qed

lemma length_incidencia_7d_col: "length (incidencia_7d_col df) = length df"
  by (simp add: incidencia_7d_col_def length_transform)

lemma incidencia_7d_col_entity:
  "group_series (map location df) (incidencia_7d_col df) e =
   rolling_mean 7 7 (map incidencia_diaria (filter (\<lambda>r. location r = e) df))"
  by (simp add: incidencia_7d_col_def group_series_transform length_rolling_mean group_series_map)

lemma metrica_incidencia_7d_Inr:
  assumes "metrica_incidencia_7d datos = Inr out"
  shows "out = map (\<lambda>(r, v). \<lparr>inc_date = date r, inc_location = location r, incidencia_7d = v\<rparr>)
                 (filter (\<lambda>(r, v). v \<noteq> None)
                    (zip (sort_values datos) (incidencia_7d_col (sort_values datos))))"
  using assms
  by (auto simp: metrica_incidencia_7d_def to_datetime_def Let_def split: if_splits)

lemma incidence_output_entity:
  assumes "metrica_incidencia_7d datos = Inr out"
  shows "filter (\<lambda>x. inc_location x = e) out =
         map (\<lambda>(r, v). \<lparr>inc_date = date r, inc_location = location r, incidencia_7d = v\<rparr>)
           (filter (\<lambda>(r, v). v \<noteq> None)
              (zip (entity_rows datos e)
                   (rolling_mean 7 7 (map incidencia_diaria (entity_rows datos e)))))"
proof -
  let ?mk = "\<lambda>(r, v). \<lparr>inc_date = date r, inc_location = location r, incidencia_7d = v\<rparr>"
  let ?df = "sort_values datos"
  let ?col = "incidencia_7d_col ?df"
  have "filter (\<lambda>x. inc_location x = e) out =
        map ?mk (filter (\<lambda>(r, v). location r = e) (filter (\<lambda>(r, v). v \<noteq> None) (zip ?df ?col)))"
    unfolding metrica_incidencia_7d_Inr [OF assms] filter_map
    by (simp add: comp_def case_prod_unfold)
  also have "filter (\<lambda>(r, v). location r = e) (filter (\<lambda>(r, v). v \<noteq> None) (zip ?df ?col)) =
        filter (\<lambda>(r, v). v \<noteq> None) (filter (\<lambda>(r, v). location r = e) (zip ?df ?col))"
    by (simp add: case_prod_unfold conj_commute)
  also have "filter (\<lambda>(r, v). location r = e) (zip ?df ?col) =
        zip (filter (\<lambda>r. location r = e) ?df) (group_series (map location ?df) ?col e)"
    by (rule filter_zip_group) (simp add: length_incidencia_7d_col)
  finally show ?thesis
    by (simp add: incidencia_7d_col_entity filter_sort_values)
qed

lemma sorted_entity_rows: "sorted (map (\<lambda>r. date_key (date r)) (entity_rows df e))"
  by (simp add: entity_rows_def)

lemma filter_zip_all_None:
  assumes "\<forall>j<length col. col ! j = None"
  shows "filter (\<lambda>(r, v). v \<noteq> None) (zip xs col) = []"
proof -
  have "\<forall>p \<in> set (zip xs col). snd p = None"
    using assms by (auto simp: in_set_conv_nth)
  then show ?thesis
    by (auto simp: filter_empty_conv)
qed

lemma length_sort_values: "length (sort_values df) = length df"
  by (simp add: sort_values_def)

lemma metrica_incidencia_7d_dates:
  assumes "metrica_incidencia_7d datos = Inr out"
  shows "Unparseable \<notin> set (map date datos)"
  using assms by (auto simp: metrica_incidencia_7d_def to_datetime_def split: if_splits)

lemma mset_entity_rows: "mset (entity_rows df e) = mset (filter (\<lambda>r. location r = e) df)"
  by (simp add: entity_rows_def)

lemma date_key_Day_le: "date_key (Day a) \<le> date_key (Day b) \<Longrightarrow> a \<le> b"
  by simp

lemma date_key_NaT_le: "date_key NaT \<le> date_key d \<Longrightarrow> d \<noteq> Unparseable \<Longrightarrow> d = NaT"
  by (cases d) simp_all

lemma entity_rows_chronological:
  assumes "Unparseable \<notin> set (map date df)" and "i < j" and "j < length (entity_rows df e)"
  shows "(\<forall>a b. date (entity_rows df e ! i) = Day a \<and> date (entity_rows df e ! j) = Day b
            \<longrightarrow> a \<le> b) \<and>
         (date (entity_rows df e ! i) = NaT \<longrightarrow> date (entity_rows df e ! j) = NaT)"
proof -
  let ?E = "entity_rows df e"
  have "sorted (map (\<lambda>r. date_key (date r)) ?E)"
    by (rule sorted_entity_rows)
  then have "map (\<lambda>r. date_key (date r)) ?E ! i \<le> map (\<lambda>r. date_key (date r)) ?E ! j"
    using assms(2,3) by (intro sorted_nth_mono) simp_all
  then have le: "date_key (date (?E ! i)) \<le> date_key (date (?E ! j))"
    using assms(2,3) by simp
  have "?E ! j \<in> set ?E"
    using assms(3) by simp
  then have "?E ! j \<in> set df"
    by (simp add: entity_rows_def)
  then have ok: "date (?E ! j) \<noteq> Unparseable"
    using assms(1) by force
  show ?thesis
  proof (intro conjI allI impI)
    fix a b assume "date (?E ! i) = Day a \<and> date (?E ! j) = Day b"
    with le show "a \<le> b" by simp
  next
    assume "date (?E ! i) = NaT"
    with le ok show "date (?E ! j) = NaT" by (simp add: date_key_NaT_le)
  qed
qed

section \<open>Facts about the schema normalizer\<close>

lemma ALT_keys_distinct: "distinct (map fst ALT)"
  by (simp add: ALT_def)

lemma ALT_canon_first: "(c, cands) \<in> set ALT \<Longrightarrow> \<exists>rest. cands = c # rest"
  by (auto simp: ALT_def)

lemma ALT_unique: "(c, cands) \<in> set ALT \<Longrightarrow> (c, cands') \<in> set ALT \<Longrightarrow> cands = cands'"
  using ALT_keys_distinct by (meson eq_key_imp_eq_value)

lemma rename_loop_sound:
  "map_of (rename_loop alt cols acc) x = Some c \<Longrightarrow>
   map_of acc x = Some c \<or>
   (\<exists>cands. (c, cands) \<in> set alt \<and> find (\<lambda>a. a \<in> set cols) cands = Some x \<and> x \<noteq> c)"
proof (induction alt arbitrary: acc)
  case Nil
  then show ?case by simp
next
  case (Cons p alt)
  obtain canon candidates where p: "p = (canon, candidates)" by (cases p)
  show ?case
  proof (cases "find (\<lambda>a. a \<in> set cols) candidates")
    case None
    with Cons p show ?thesis by auto
  next
    case (Some found)
    show ?thesis
    proof (cases "found \<noteq> [] \<and> found \<noteq> canon")
      case True
      with Cons.prems p Some
      have "map_of (rename_loop alt cols (AList.update found canon acc)) x = Some c" by simp
      from Cons.IH [OF this] show ?thesis
        using p Some True by (auto simp: update_Some_unfold)
    next
      case False
      with Cons p Some show ?thesis by auto
    qed
  qed
qed

lemma rename_map_entry:
  assumes "map_of (rename_loop ALT cols []) x = Some c"
  shows "\<exists>rest. (c, c # rest) \<in> set ALT \<and> find (\<lambda>a. a \<in> set cols) (c # rest) = Some x \<and> x \<noteq> c"
proof -
  from rename_loop_sound [OF assms] obtain cands where
    c: "(c, cands) \<in> set ALT" "find (\<lambda>a. a \<in> set cols) cands = Some x" "x \<noteq> c"
    by auto
  then show ?thesis using ALT_canon_first by blast
qed

lemma rename_map_canon_absent:
  assumes "map_of (rename_loop ALT cols []) x = Some c"
  shows "c \<notin> set cols"
  using rename_map_entry [OF assms] by auto

lemma renamed_inj: "inj_on (renamed cols) (set cols)"
proof (rule inj_onI)
  fix x y assume x: "x \<in> set cols" and y: "y \<in> set cols" and eq: "renamed cols x = renamed cols y"
  show "x = y"
  proof (cases "map_of (rename_loop ALT cols []) x")
    case None
    note nx = this
    show ?thesis
    proof (cases "map_of (rename_loop ALT cols []) y")
      case None
      with nx eq show ?thesis by (simp add: renamed_def)
    next
      case (Some c)
      with nx eq have "c = x" by (simp add: renamed_def)
      with rename_map_canon_absent [OF Some] x show ?thesis by simp
    qed
  next
    case (Some c)
    note sx = this
    show ?thesis
    proof (cases "map_of (rename_loop ALT cols []) y")
      case None
      with sx eq have "c = y" by (simp add: renamed_def)
      with rename_map_canon_absent [OF sx] y show ?thesis by simp
    next
      case (Some c')
      with sx eq have "c' = c" by (simp add: renamed_def)
      with Some have sy: "map_of (rename_loop ALT cols []) y = Some c" by simp
      from rename_map_entry [OF sx] obtain r1 where
        1: "(c, c # r1) \<in> set ALT" "find (\<lambda>a. a \<in> set cols) (c # r1) = Some x" by blast
      from rename_map_entry [OF sy] obtain r2 where
        2: "(c, c # r2) \<in> set ALT" "find (\<lambda>a. a \<in> set cols) (c # r2) = Some y" by blast
      from 1(1) 2(1) have "c # r1 = c # r2" by (rule ALT_unique)
      with 1(2) 2(2) show ?thesis by simp
    qed
  qed
qed

lemma columns_rename:
  "columns (rename df (rename_loop ALT cols [])) = map (renamed cols) (columns df)"
  by (simp add: rename_def renamed_def)

lemma rows_rename: "rows (rename df m) = rows df"
  by (simp add: rename_def)

lemma rename_empty: "rename df [] = df"
  by (simp add: rename_def)

lemma canon_returned:
  assumes "frames h a = Some df" and "canon lower h a = Some (h', b)"
  shows "frames h' b =
         Some (rename (df\<lparr>columns := map (clean_header lower) (columns df)\<rparr>)
                      (rename_loop ALT (map (clean_header lower) (columns df)) []))"
  using assms
  by (auto simp: canon_def Let_def rename_empty split: if_splits)


lemma length_filter_all_eq:
  "\<forall>x \<in> set xs. P x \<longrightarrow> x = a \<Longrightarrow> length (filter P xs) \<le> count_list xs a"
proof (induction xs)
  case Nil
  show ?case by simp
next
  case (Cons x xs)
  then have "length (filter P xs) \<le> count_list xs a" by simp
  moreover have "P x \<longrightarrow> x = a" using Cons.prems by simp
  ultimately show ?case by (cases "P x") simp_all
qed

lemma count_list_map_filter: "count_list (map f xs) c = length (filter (\<lambda>x. f x = c) xs)"
  by (induction xs) simp_all

lemma distinct_renamed: "distinct cols \<Longrightarrow> distinct (map (renamed cols) cols)"
  by (simp add: distinct_map renamed_inj)

lemma canonical_label_once:
  assumes c: "(c, cands) \<in> set ALT"
    and once: "\<forall>al \<in> set cands. count_list cols al \<le> 1"
  shows "count_list (map (renamed cols) cols) c \<le> 1"
proof -
  obtain rest where cands: "cands = c # rest"
    using ALT_canon_first [OF c] by blast
  show ?thesis
  proof (cases "c \<in> set cols")
    case True
    have "\<forall>x \<in> set cols. renamed cols x = c \<longrightarrow> x = c"
    proof (intro ballI impI)
      fix x assume "x \<in> set cols" and r: "renamed cols x = c"
      show "x = c"
      proof (cases "map_of (rename_loop ALT cols []) x")
        case None
        with r show ?thesis by (simp add: renamed_def)
      next
        case (Some c')
        with r have "c' = c" by (simp add: renamed_def)
        with rename_map_canon_absent [OF Some] True show ?thesis by simp
      qed
    qed
    then have "length (filter (\<lambda>x. renamed cols x = c) cols) \<le> count_list cols c"
      by (rule length_filter_all_eq)
    also have "\<dots> \<le> 1"
      using once cands by simp
    finally show ?thesis by (simp add: count_list_map_filter)
  next
    case False
    show ?thesis
    proof (cases "find (\<lambda>a. a \<in> set cols) cands")
      case None
      have "filter (\<lambda>x. renamed cols x = c) cols = []"
      proof (rule ccontr)
        assume "filter (\<lambda>x. renamed cols x = c) cols \<noteq> []"
        then obtain x where x: "x \<in> set cols" "renamed cols x = c"
          by (auto simp: filter_empty_conv)
        show False
        proof (cases "map_of (rename_loop ALT cols []) x")
          case None
          with x False show ?thesis by (simp add: renamed_def)
        next
          case (Some c')
          with x have "c' = c" by (simp add: renamed_def)
          with rename_map_entry [OF Some] obtain r1 where
            "(c, c # r1) \<in> set ALT" "find (\<lambda>a. a \<in> set cols) (c # r1) = Some x" by blast
          with ALT_unique [OF c] \<open>find (\<lambda>a. a \<in> set cols) cands = None\<close>
          show ?thesis by fastforce
        qed
      qed
      then show ?thesis by (simp add: count_list_map_filter)
    next
      case (Some found)
      have "\<forall>x \<in> set cols. renamed cols x = c \<longrightarrow> x = found"
      proof (intro ballI impI)
        fix x assume "x \<in> set cols" and r: "renamed cols x = c"
        show "x = found"
        proof (cases "map_of (rename_loop ALT cols []) x")
          case None
          with r \<open>x \<in> set cols\<close> False show ?thesis by (simp add: renamed_def)
        next
          case (Some c')
          with r have "c' = c" by (simp add: renamed_def)
          with rename_map_entry [OF Some] obtain r1 where
            "(c, c # r1) \<in> set ALT" "find (\<lambda>a. a \<in> set cols) (c # r1) = Some x" by blast
          with ALT_unique [OF c] \<open>find (\<lambda>a. a \<in> set cols) cands = Some found\<close>
          show ?thesis by fastforce
        qed
      qed
      then have "length (filter (\<lambda>x. renamed cols x = c) cols) \<le> count_list cols found"
        by (rule length_filter_all_eq)
      also have "found \<in> set cands"
        using Some by (auto simp: find_Some_iff)
      then have "count_list cols found \<le> 1"
        using once by simp
      finally show ?thesis by (simp add: count_list_map_filter)
    qed
  qed
qed

lemma canon_caller:
  assumes "frames h a = Some df" and "frames h (next_ref h) = None" and "canon lower h a = Some (h', b)"
  shows "frames h' a = Some (df\<lparr>columns := map (clean_header lower) (columns df)\<rparr>)"
    and "r \<noteq> a \<Longrightarrow> r \<noteq> b \<Longrightarrow> frames h' r = frames h r"
    and "b = a \<or> b = next_ref h"
proof -
  have ne: "a \<noteq> next_ref h"
    using assms(1,2) by auto
  show "frames h' a = Some (df\<lparr>columns := map (clean_header lower) (columns df)\<rparr>)"
    using assms ne by (auto simp: canon_def Let_def split: if_splits)
  show "b = a \<or> b = next_ref h"
    using assms by (auto simp: canon_def Let_def split: if_splits)
  show "frames h' r = frames h r" if "r \<noteq> a" "r \<noteq> b"
    using assms that by (auto simp: canon_def Let_def split: if_splits)
qed

lemma canon_result:
  assumes "frames h a = Some df" and "canon lower h a = Some (h', b)"
  shows "\<exists>out. frames h' b = Some out \<and> rows out = rows df \<and>
           columns out = map (renamed (map (clean_header lower) (columns df)))
                             (map (clean_header lower) (columns df))"
proof -
  let ?cols = "map (clean_header lower) (columns df)"
  let ?out = "rename (df\<lparr>columns := ?cols\<rparr>) (rename_loop ALT ?cols [])"
  have "frames h' b = Some ?out"
    using assms by (rule canon_returned)
  moreover have "columns ?out = map (renamed ?cols) ?cols"
    by (simp only: columns_rename) simp
  moreover have "rows ?out = rows df"
    by (simp add: rows_rename)
  ultimately show ?thesis by blast
qed

lemma find_in_set: "find P xs = Some x \<Longrightarrow> P x"
  by (induction xs) (auto split: if_splits)

lemma rename_map_renames:
  assumes "rename_loop ALT cols [] \<noteq> []"
  shows "\<exists>x \<in> set cols. renamed cols x \<noteq> x"
proof -
  from assms obtain k c ms where m: "rename_loop ALT cols [] = (k, c) # ms"
    by (cases "rename_loop ALT cols []") auto
  then have e: "map_of (rename_loop ALT cols []) k = Some c"
    by simp
  from rename_map_entry [OF e] obtain rest where
    f: "find (\<lambda>a. a \<in> set cols) (c # rest) = Some k" and ne: "k \<noteq> c"
    by blast
  from f have k: "k \<in> set cols"
    by (rule find_in_set)
  have "renamed cols k = c"
    using e by (simp add: renamed_def)
  with ne have "renamed cols k \<noteq> k"
    by simp
  with k show ?thesis
    by (rule bexI [rotated])
qed

lemma renamed_nothing: "rename_loop ALT cols [] = [] \<Longrightarrow> map (renamed cols) cols = cols"
  by (simp add: renamed_def map_idI)

lemma nothing_renamed_iff:
  "(map (renamed cols) cols = cols) = (rename_loop ALT cols [] = [])"
proof
  assume eq: "map (renamed cols) cols = cols"
  show "rename_loop ALT cols [] = []"
  proof (rule ccontr)
    assume "rename_loop ALT cols [] \<noteq> []"
    then obtain x where "x \<in> set cols" "renamed cols x \<noteq> x"
      using rename_map_renames by blast
    moreover have "\<forall>x \<in> set cols. renamed cols x = x"
      using eq by (simp add: map_eq_conv [of "renamed cols" cols id, simplified])
    ultimately show False by blast
  qed
next
  assume "rename_loop ALT cols [] = []"
  then show "map (renamed cols) cols = cols" by (rule renamed_nothing)
qed

lemma canon_reference:
  assumes "frames h a = Some df" and "frames h (next_ref h) = None"
    and "canon lower h a = Some (h', b)"
  shows "(b = a) = (rename_loop ALT (map (clean_header lower) (columns df)) [] = [])"
    and "b \<noteq> a \<Longrightarrow> b = next_ref h"
proof -
  have ne: "a \<noteq> next_ref h"
    using assms(1,2) by auto
  show "(b = a) = (rename_loop ALT (map (clean_header lower) (columns df)) [] = [])"
    using assms ne by (auto simp: canon_def Let_def split: if_splits)
  show "b = next_ref h" if "b \<noteq> a"
    using assms that by (auto simp: canon_def Let_def split: if_splits)
qed

section \<open>Facts about the processed table and the checks\<close>

lemma require_KeyError_iff:
  "(\<exists>m. require df cols = Inl (KeyError m)) = (\<exists>c \<in> set cols. c \<notin> set (columns df))"
  by (auto simp: require_def Let_def filter_empty_conv)

lemma require_Inl:
  "require df cols = Inl e \<Longrightarrow>
   e = KeyError (''Faltan columnas requeridas tras normalizar: '' @
                 repr_list (filter (\<lambda>c. c \<notin> set (columns df)) cols))"
  by (auto simp: require_def Let_def split: if_splits)

lemma datos_procesados_KeyError:
  "(datos_procesados env df = Inl (KeyError m)) = (require df required_columns = Inl (KeyError m))"
  by (cases "require df required_columns") (simp_all add: datos_procesados_def Let_def)

lemma require_rows: "require (df\<lparr>rows := rs\<rparr>) cols = require df cols"
  by (simp add: require_def)

lemma message_names_missing:
  "\<forall>ms \<in> set (subseqs required_columns). \<forall>c \<in> set required_columns.
     sublist ([CHR 0x27] @ c @ [CHR 0x27])
       (''Faltan columnas requeridas tras normalizar: '' @ repr_list ms) = (c \<in> set ms)"
  by code_simp

lemma message_prefix:
  "prefix ''Faltan columnas requeridas tras normalizar: ''
     (''Faltan columnas requeridas tras normalizar: '' @ rest)"
  by (rule prefixI) simp

lemma seen_before_none:
  "(filter (\<lambda>b. b) (seen_before seen ks) = []) = (distinct ks \<and> set ks \<inter> set seen = {})"
proof (induction ks arbitrary: seen)
  case Nil
  show ?case by simp
next
  case (Cons k ks)
  show ?case
    by (cases "k \<in> set seen") (auto simp: Cons.IH)
qed

lemma unique_loc_date_passed:
  assumes "''location'' \<in> set (columns df)" and "''date'' \<in> set (columns df)"
  shows "passed (unique_loc_date df) = distinct (map (row_key df [''location'', ''date'']) (rows df))"
proof -
  have "columns_missing df [''location'', ''date''] = []"
    using assms by (simp add: columns_missing_def)
  then show ?thesis
    using seen_before_none [of "[]" "map (row_key df [''location'', ''date'']) (rows df)"]
    by (simp add: unique_loc_date_def Let_def duplicated_def)
qed

lemma not_distinct_pair:
  "(\<not> distinct (map f xs)) = (\<exists>i j. i < j \<and> j < length xs \<and> f (xs ! i) = f (xs ! j))"
proof
  assume "\<not> distinct (map f xs)"
  then obtain i j where ij: "i < length xs" "j < length xs" "i \<noteq> j" "f (xs ! i) = f (xs ! j)"
    unfolding distinct_conv_nth by auto
  show "\<exists>i j. i < j \<and> j < length xs \<and> f (xs ! i) = f (xs ! j)"
  proof (cases "i < j")
    case True
    with ij show ?thesis by blast
  next
    case False
    with ij have "j < i" by simp
    with ij show ?thesis by metis
  qed
next
  assume "\<exists>i j. i < j \<and> j < length xs \<and> f (xs ! i) = f (xs ! j)"
  then obtain i j where ij: "i < j" "j < length xs" "f (xs ! i) = f (xs ! j)" by blast
  then have "i < length (map f xs)" "j < length (map f xs)" "i \<noteq> j" "map f xs ! i = map f xs ! j"
    by simp_all
  then show "\<not> distinct (map f xs)"
    unfolding distinct_conv_nth by blast
qed

lemma set_positions: "set (positions df c) = {k. k < length (columns df) \<and> columns df ! k = c}"
  by (auto simp: positions_def)

lemma row_key_eq_iff:
  "(row_key df ls r = row_key df ls r') =
   (\<forall>k<length (columns df). columns df ! k \<in> set ls \<longrightarrow> cell_at r k = cell_at r' k)"
proof -
  let ?f = "\<lambda>r c. map (cell_at r) (positions df c)"
  have "(concat (map (?f r) ls) = concat (map (?f r') ls)) = (map (?f r) ls = map (?f r') ls)"
    by (rule concat_eq_concat_iff) (auto simp: set_zip)
  also have "\<dots> = (\<forall>c \<in> set ls. ?f r c = ?f r' c)"
    by (rule map_eq_conv)
  also have "\<dots> = (\<forall>c \<in> set ls. \<forall>k \<in> set (positions df c). cell_at r k = cell_at r' k)"
    by simp
  also have "\<dots> = (\<forall>k<length (columns df). columns df ! k \<in> set ls \<longrightarrow> cell_at r k = cell_at r' k)"
    by (auto simp: set_positions)
  finally show ?thesis
    by (simp add: row_key_def)
qed

lemma row_key_columns: "columns df' = columns df \<Longrightarrow> row_key df' ls = row_key df ls"
  by (rule ext) (simp add: row_key_def positions_def)

lemma positions_columns: "columns df' = columns df \<Longrightarrow> positions df' c = positions df c"
  by (simp add: positions_def)

lemma set_first_of_key: "set (first_of_key seen key xs) \<subseteq> set xs"
  by (induction xs arbitrary: seen) auto

lemma first_of_key_covers:
  "x \<in> set xs \<Longrightarrow> key x \<notin> set seen \<Longrightarrow> \<exists>y \<in> set (first_of_key seen key xs). key y = key x"
proof (induction xs arbitrary: seen)
  case Nil
  then show ?case by simp
next
  case (Cons a xs)
  show ?case
  proof (cases "key a \<in> set seen")
    case True
    with Cons.prems have "x \<in> set xs" by auto
    from Cons.IH [OF this Cons.prems(2)] True show ?thesis by simp
  next
    case False
    show ?thesis
    proof (cases "key x = key a")
      case True
      with False show ?thesis by simp
    next
      case ne: False
      with Cons.prems have "x \<in> set xs" "key x \<notin> set (key a # seen)" by auto
      from Cons.IH [OF this] False show ?thesis by auto
    qed
  qed
qed

lemma filter_upt_single: "k < n \<Longrightarrow> filter (\<lambda>i. i = k) [0..<n] = [k]"
  by (simp add: upt_split_at [of k n] filter_empty_conv)

lemma positions_single:
  assumes "distinct (columns df)" and "c \<in> set (columns df)"
  shows "\<exists>k. positions df c = [k]"
proof -
  from assms(2) obtain k where k: "k < length (columns df)" "columns df ! k = c"
    by (auto simp: in_set_conv_nth)
  have "filter (\<lambda>i. columns df ! i = c) [0..<length (columns df)] =
        filter (\<lambda>i. i = k) [0..<length (columns df)]"
    by (rule filter_cong) (use assms(1) k in \<open>auto simp: nth_eq_iff_index_eq\<close>)
  then have "positions df c = [k]"
    using k(1) by (simp add: positions_def filter_upt_single)
  then show ?thesis ..
qed

lemma select_columns_labels:
  assumes "distinct (columns df)" and "set cols \<subseteq> set (columns df)"
  shows "columns (select_columns df cols) = cols"
proof -
  have "map (\<lambda>c. map (\<lambda>i. c) (positions df c)) cols = map (\<lambda>c. [c]) cols"
  proof (rule map_cong [OF refl])
    fix c assume "c \<in> set cols"
    with assms obtain k where "positions df c = [k]"
      using positions_single by blast
    then show "map (\<lambda>i. c) (positions df c) = [c]" by simp
  qed
  moreover have "concat (map (\<lambda>c. [c]) cols) = cols"
    by (induction cols) simp_all
  ultimately have "concat (map (\<lambda>c. map (\<lambda>i. c) (positions df c)) cols) = cols"
    by (simp only:)
  then show ?thesis
    by (simp only: select_columns_def dataframe.select_convs)
qed

lemma require_Inr: "require df cols = Inr u \<Longrightarrow> set cols \<subseteq> set (columns df)"
  by (auto simp: require_def Let_def filter_empty_conv split: if_splits)

lemma datos_procesados_Inr:
  assumes "datos_procesados env df = Inr out"
  shows "out = select_columns
           (isin_location
              (drop_duplicates (dropna df [''new_cases'', ''people_vaccinated''])
                 [''location'', ''date''])
              (PAISES env))
           required_columns"
    and "set required_columns \<subseteq> set (columns df)"
proof -
  obtain u where u: "require df required_columns = Inr u"
    using assms by (cases "require df required_columns") (simp_all add: datos_procesados_def)
  then show "set required_columns \<subseteq> set (columns df)"
    by (rule require_Inr)
  show "out = select_columns
           (isin_location
              (drop_duplicates (dropna df [''new_cases'', ''people_vaccinated''])
                 [''location'', ''date''])
              (PAISES env))
           required_columns"
    using assms u by (simp add: datos_procesados_def Let_def split: if_splits)
qed

lemma datos_procesados_rows:
  assumes "datos_procesados env df = Inr out"
  shows "rows out =
         map (row_key df required_columns)
           (filter (selected_country env df)
              (first_of_key [] (row_key df [''location'', ''date''])
                 (filter (complete_row df) (rows df))))"
proof -
  let ?d1 = "dropna df [''new_cases'', ''people_vaccinated'']"
  let ?d2 = "drop_duplicates ?d1 [''location'', ''date'']"
  let ?d3 = "isin_location ?d2 (PAISES env)"
  have out: "out = select_columns ?d3 required_columns"
    using assms by (rule datos_procesados_Inr(1))
  have c1: "columns ?d1 = columns df" by (simp add: dropna_def)
  have c2: "columns ?d2 = columns df" by (simp add: drop_duplicates_def c1)
  have c3: "columns ?d3 = columns df" by (simp add: isin_location_def c2)
  have "(\<lambda>r. NA \<notin> set (row_key df [''new_cases'', ''people_vaccinated''] r)) = complete_row df"
    by (rule ext) (simp add: complete_row_def)
  then have r1: "rows ?d1 = filter (complete_row df) (rows df)"
    by (simp add: dropna_def)
  have r2: "rows ?d2 = first_of_key [] (row_key df [''location'', ''date'']) (rows ?d1)"
    by (simp add: drop_duplicates_def row_key_columns [OF c1])
  have "(\<lambda>r. row_key ?d2 [''location''] r \<in> set (map (\<lambda>p. [Str p]) (PAISES env))) =
        selected_country env df"
    by (rule ext) (simp add: selected_country_def row_key_columns [OF c2])
  then have r3: "rows ?d3 = filter (selected_country env df) (rows ?d2)"
    by (simp add: isin_location_def)
  have "rows out = map (row_key df required_columns) (rows ?d3)"
    unfolding out select_columns_def by (simp add: row_key_columns [OF c3])
  then show ?thesis
    by (simp only: r3 r2 r1)
qed

lemma datos_procesados_columns:
  assumes "datos_procesados env df = Inr out" and "distinct (columns df)"
  shows "columns out = required_columns"
proof -
  let ?d3 = "isin_location
              (drop_duplicates (dropna df [''new_cases'', ''people_vaccinated''])
                 [''location'', ''date''])
              (PAISES env)"
  have c3: "columns ?d3 = columns df"
    by (simp add: isin_location_def drop_duplicates_def dropna_def)
  have "columns (select_columns ?d3 required_columns) = required_columns"
    by (rule select_columns_labels)
       (use assms(2) datos_procesados_Inr(2) [OF assms(1)] c3 in simp_all)
  then show ?thesis
    using datos_procesados_Inr(1) [OF assms(1)] by simp
qed

lemma key_location:
  assumes "row_key df [''location'', ''date''] r0 = row_key df [''location'', ''date''] r"
  shows "selected_country env df r0 = selected_country env df r"
proof -
  have "\<forall>k<length (columns df). columns df ! k \<in> set [''location'', ''date''] \<longrightarrow>
          cell_at r0 k = cell_at r k"
    using assms by (simp only: row_key_eq_iff)
  then have "\<forall>k<length (columns df). columns df ! k \<in> set [''location''] \<longrightarrow>
          cell_at r0 k = cell_at r k"
    by simp
  then have "row_key df [''location''] r0 = row_key df [''location''] r"
    by (simp only: row_key_eq_iff)
  then show ?thesis
    by (simp add: selected_country_def)
qed

lemma set_sort_values: "set (sort_values df) = set df"
  by (simp add: sort_values_def)

lemma metrica_incidencia_7d_error:
  "(metrica_incidencia_7d rs = Inl e) =
   (Unparseable \<in> set (map date rs) \<and> e = DateParseError \<or>
    Unparseable \<notin> set (map date rs) \<and> Some 0 \<in> set (map population rs) \<and> e = DataError)"
  by (auto simp: metrica_incidencia_7d_def to_datetime_def Let_def object_dtype_def
        set_sort_values)

lemma metrica_factor_crec_7d_error:
  "(metrica_factor_crec_7d rs = Inl e) = (Unparseable \<in> set (map date rs) \<and> e = DateParseError)"
  by (auto simp: metrica_factor_crec_7d_def to_datetime_def)

lemma incidencia_diaria_null_population: "population r = None \<Longrightarrow> incidencia_diaria r = None"
  by (simp add: incidencia_diaria_def replace_zero_def)

lemma as_prow_population:
  assumes "as_prow stamp r = Some p"
  shows "\<exists>l d nc pv pop. r = [Str l, d, nc, pv, pop] \<and> number_of pop = Some (population p)"
  using assms
  by (induction stamp r rule: as_prow.induct) (auto split: option.splits)

lemma number_of_NA: "number_of c = Some v \<Longrightarrow> c = NA \<Longrightarrow> v = None"
  by simp

lemma positions_population: "positions \<lparr>columns = required_columns, rows = rs\<rparr> ''population'' = [4]"
  by code_simp

section \<open>The claims about the metrics\<close>

subsection \<open>C1: the growth table and the order of the rows\<close>

text \<open>
  C1 states that \<^verbatim>\<open>metrica_factor_crec_7d\<close> sorts each entity's rows by date before it
  computes the trailing sums, so that its result does not depend on the order in which
  the rows arrive. The function has no sorting step (its sibling
  \<^verbatim>\<open>metrica_incidencia_7d\<close> has one): the same eight rows, arriving newest first,
  give another table, with the week ending on day 1, while the incidence table is the
  same for both orders.
\<close>

theorem growth_depends_on_arrival_order:
  "metrica_factor_crec_7d eight_days =
     Inr [\<lparr>semana_fin = Day 8, crec_location = ''Ecuador'', casos_semana = Some 8,
           factor_crec_7d = Fin 8\<rparr>] \<and>
   metrica_factor_crec_7d (rev eight_days) =
     Inr [\<lparr>semana_fin = Day 1, crec_location = ''Ecuador'', casos_semana = Some 7,
           factor_crec_7d = Fin (7 / 2)\<rparr>] \<and>
   metrica_incidencia_7d (rev eight_days) = metrica_incidencia_7d eight_days"
  by code_simp

subsection \<open>C2: the first emitted growth row of an entity\<close>

text \<open>
  C2 states that the first emitted row of an entity carries a window of size 1 (its
  weekly sum is its own new cases) and that an entity with fewer than 7 rows may appear
  in the growth table. The table drops every row without a growth factor, and the
  first seven rows of an entity have none: of eight days, only the eighth is emitted,
  with the sum 8 of a full window while its own new cases are 2, and the first six
  days alone give an empty table.
\<close>

theorem growth_first_emitted_row_full_window:
  "metrica_factor_crec_7d eight_days =
     Inr [\<lparr>semana_fin = Day 8, crec_location = ''Ecuador'', casos_semana = Some 8,
           factor_crec_7d = Fin 8\<rparr>] \<and>
   new_cases (eight_days ! 7) = Some 2 \<and>
   metrica_factor_crec_7d (take 6 eight_days) = Inr []"
  by code_simp

text \<open>
  C2, as amended: in the weekly-sum column, the first row of every entity carries that
  row's own new cases (a window of size 1). The emitted growth table is that column
  without the rows that lack a date, a sum or a factor: a row is only emitted from the
  eighth row of its entity on (in arrival order), and its weekly sum is then the sum of
  the observed new cases of a full window of seven rows. An entity with at most seven
  rows does not appear in the growth table.
\<close>

theorem growth_emits_full_windows_only:
  assumes "metrica_factor_crec_7d datos = Inr out"
  shows "out = filter growth_notna (growth_table datos) \<and>
         (\<forall>i<length datos. group_pos (map location datos) i = 0 \<longrightarrow>
            casos_semana_col datos ! i = new_cases (datos ! i)) \<and>
         (\<forall>i<length datos. growth_notna (growth_table datos ! i) \<longrightarrow>
            7 \<le> group_pos (map location datos) i \<and>
            length (window 7
               (group_series (map location datos) (map new_cases datos) (location (datos ! i)))
               (group_pos (map location datos) i)) = 7 \<and>
            casos_semana_col datos ! i =
              Some (sum_list (observed (window 7
                (group_series (map location datos) (map new_cases datos) (location (datos ! i)))
                (group_pos (map location datos) i))))) \<and>
         (length (filter (\<lambda>r. location r = e) datos) \<le> 7 \<longrightarrow>
            filter (\<lambda>g. crec_location g = e) out = [])"
proof (intro conjI allI impI)
  show o: "out = filter growth_notna (growth_table datos)"
    using assms by (rule metrica_factor_crec_7d_Inr)
  {
    assume few: "length (filter (\<lambda>r. location r = e) datos) \<le> 7"
    have "g \<notin> set (filter (\<lambda>g. crec_location g = e) out)" for g
    proof
      assume "g \<in> set (filter (\<lambda>g. crec_location g = e) out)"
      then have "g \<in> set (growth_table datos)" "growth_notna g" "crec_location g = e"
        using o by simp_all
      then obtain i where i: "i < length datos" "growth_table datos ! i = g"
        by (auto simp: in_set_conv_nth length_growth_table)
      have loc: "map location datos ! i = e"
        using i \<open>crec_location g = e\<close> by (auto simp: nth_growth_table)
      have "7 \<le> group_pos (map location datos) i"
        using i \<open>growth_notna g\<close> growth_notna_pos by blast
      moreover have "group_pos (map location datos) i
                       < length (group_index (map location datos) (location (datos ! i)))"
        using i by (simp add: group_pos_less_map)
      ultimately show False
        using few loc i by (simp add: length_group_index_filter)
    qed
    then show "filter (\<lambda>g. crec_location g = e) out = []"
      by (meson last_in_set)
  }
qed (simp_all add: casos_semana_first_row growth_notna_pos growth_notna_sum)

theorem growth_emits_full_windows_only_witness:
  "metrica_factor_crec_7d eight_days =
     Inr [\<lparr>semana_fin = Day 8, crec_location = ''Ecuador'', casos_semana = Some 8,
           factor_crec_7d = Fin 8\<rparr>] \<and>
   casos_semana_col eight_days ! 0 = new_cases (eight_days ! 0) \<and>
   7 \<le> group_pos (map location eight_days) 7 \<and>
   casos_semana_col eight_days ! 7 =
     Some (sum_list (observed (window 7
       (group_series (map location eight_days) (map new_cases eight_days)
          (location (eight_days ! 7)))
       (group_pos (map location eight_days) 7)))) \<and>
   metrica_factor_crec_7d (take 7 eight_days) = Inr [] \<and>
   filter (\<lambda>g. crec_location g = ''Ecuador'') [] = ([] :: growth_row list)"
proof -
  have h: "metrica_factor_crec_7d eight_days =
     Inr [\<lparr>semana_fin = Day 8, crec_location = ''Ecuador'', casos_semana = Some 8,
           factor_crec_7d = Fin 8\<rparr>]"
    by code_simp
  have h7: "metrica_factor_crec_7d (take 7 eight_days) = Inr []"
    by code_simp
  have len: "length eight_days = 8"
    by (simp add: eight_days_def)
  have p0: "group_pos (map location eight_days) 0 = 0"
    by code_simp
  have n7: "growth_notna (growth_table eight_days ! 7)"
    by code_simp
  have few: "length (filter (\<lambda>r. location r = ''Ecuador'') (take 7 eight_days)) \<le> 7"
    by code_simp
  note full = growth_emits_full_windows_only [OF h, of "''Ecuador''"]
  from full have first: "\<forall>i<length eight_days. group_pos (map location eight_days) i = 0 \<longrightarrow>
            casos_semana_col eight_days ! i = new_cases (eight_days ! i)"
    by blast
  from full have late: "\<forall>i<length eight_days. growth_notna (growth_table eight_days ! i) \<longrightarrow>
            7 \<le> group_pos (map location eight_days) i \<and>
            length (window 7
               (group_series (map location eight_days) (map new_cases eight_days)
                  (location (eight_days ! i)))
               (group_pos (map location eight_days) i)) = 7 \<and>
            casos_semana_col eight_days ! i =
              Some (sum_list (observed (window 7
                (group_series (map location eight_days) (map new_cases eight_days)
                   (location (eight_days ! i)))
                (group_pos (map location eight_days) i))))"
    by blast
  have a: "casos_semana_col eight_days ! 0 = new_cases (eight_days ! 0)"
    using first len p0 by simp
  have b: "7 \<le> group_pos (map location eight_days) 7 \<and>
     casos_semana_col eight_days ! 7 =
     Some (sum_list (observed (window 7
       (group_series (map location eight_days) (map new_cases eight_days)
          (location (eight_days ! 7)))
       (group_pos (map location eight_days) 7))))"
    using late len n7 by simp
  have c: "filter (\<lambda>g. crec_location g = ''Ecuador'') [] = ([] :: growth_row list)"
    using growth_emits_full_windows_only [OF h7, of "''Ecuador''"] few by simp
  show ?thesis
    using h h7 a b c by blast
qed

subsection \<open>C3: the emitted growth factors\<close>

text \<open>
  C3 states that every \<^verbatim>\<open>factor_crec_7d\<close> of the emitted growth table is strictly
  positive and finite. The table drops the rows whose factor is undefined or infinite
  and nothing else: after eight days with one case on the first day and none afterwards,
  the eighth row is emitted with the weekly sum 0 and the factor 0.
\<close>

theorem growth_factor_zero_emitted:
  "metrica_factor_crec_7d outbreak_over =
     Inr [\<lparr>semana_fin = Day 8, crec_location = ''Ecuador'', casos_semana = Some 0,
           factor_crec_7d = Fin 0\<rparr>]"
  by code_simp

text \<open>
  C3, as amended: every \<^verbatim>\<open>factor_crec_7d\<close> of the emitted growth table is a
  defined, finite number (never NaN, never infinite): it is the quotient of the row's
  weekly sum by a previous weekly sum that is defined and not zero. Its sign is not
  restricted.
\<close>

theorem growth_factor_defined_finite:
  assumes "metrica_factor_crec_7d datos = Inr out"
  shows "(\<forall>g \<in> set out. \<exists>x. factor_crec_7d g = Fin x) \<and>
         (\<forall>i<length datos. growth_notna (growth_table datos ! i) \<longrightarrow>
            (\<exists>c p. casos_semana_col datos ! i = Some c \<and>
                   casos_semana_prev_col datos ! i = Some p \<and> p \<noteq> 0 \<and>
                   factor_crec_7d (growth_table datos ! i) = Fin (c / p)))"
proof (intro conjI ballI allI impI)
  fix g assume "g \<in> set out"
  then have "g \<in> set (growth_table datos)" and nn: "growth_notna g"
    using metrica_factor_crec_7d_Inr [OF assms] by simp_all
  then obtain i where "i < length datos" "growth_table datos ! i = g"
    by (auto simp: in_set_conv_nth length_growth_table)
  with nn show "\<exists>x. factor_crec_7d g = Fin x"
    using growth_notna_factor [of i datos] by auto
next
  fix i assume "i < length datos" "growth_notna (growth_table datos ! i)"
  then show "\<exists>c p. casos_semana_col datos ! i = Some c \<and>
                   casos_semana_prev_col datos ! i = Some p \<and> p \<noteq> 0 \<and>
                   factor_crec_7d (growth_table datos ! i) = Fin (c / p)"
    by (rule growth_notna_factor)
qed

theorem growth_factor_defined_finite_witness:
  "metrica_factor_crec_7d eight_days =
     Inr [\<lparr>semana_fin = Day 8, crec_location = ''Ecuador'', casos_semana = Some 8,
           factor_crec_7d = Fin 8\<rparr>] \<and>
   (\<exists>x. factor_crec_7d \<lparr>semana_fin = Day 8, crec_location = ''Ecuador'',
           casos_semana = Some 8, factor_crec_7d = Fin 8\<rparr> = Fin x)"
proof -
  have h: "metrica_factor_crec_7d eight_days =
     Inr [\<lparr>semana_fin = Day 8, crec_location = ''Ecuador'', casos_semana = Some 8,
           factor_crec_7d = Fin 8\<rparr>]"
    by code_simp
  from growth_factor_defined_finite [OF h] show ?thesis
    using h by simp
qed

subsection \<open>C4: the incidence table needs a full window\<close>

text \<open>
  C4 states that the incidence table holds no row of an entity until at least 7 prior
  rows of that entity exist in chronological order, and that the 7th emitted value of
  an entity is the arithmetic mean of its first 7 daily incidences. The first emitted
  row is the entity's 7th row, which has 6 rows before it, and the 7th emitted value
  belongs to the 13th row: for thirteen days with daily incidences 1 to 13, the table
  starts on day 7, its 7th value is 10, and the mean of the first seven daily
  incidences is 4.
\<close>

theorem seventh_emitted_value_is_of_day_13:
  "metrica_incidencia_7d thirteen_days =
     Inr [\<lparr>inc_date = Day 7, inc_location = ''Ecuador'', incidencia_7d = Some 4\<rparr>,
          \<lparr>inc_date = Day 8, inc_location = ''Ecuador'', incidencia_7d = Some 5\<rparr>,
          \<lparr>inc_date = Day 9, inc_location = ''Ecuador'', incidencia_7d = Some 6\<rparr>,
          \<lparr>inc_date = Day 10, inc_location = ''Ecuador'', incidencia_7d = Some 7\<rparr>,
          \<lparr>inc_date = Day 11, inc_location = ''Ecuador'', incidencia_7d = Some 8\<rparr>,
          \<lparr>inc_date = Day 12, inc_location = ''Ecuador'', incidencia_7d = Some 9\<rparr>,
          \<lparr>inc_date = Day 13, inc_location = ''Ecuador'', incidencia_7d = Some 10\<rparr>] \<and>
   map incidencia_diaria (take 7 thirteen_days) =
     [Some 1, Some 2, Some 3, Some 4, Some 5, Some 6, Some 7] \<and>
   sum_list [1, 2, 3, 4, 5, 6, 7 :: real] / 7 = 4 \<and>
   map date (take 6 thirteen_days) = [Day 1, Day 2, Day 3, Day 4, Day 5, Day 6]"
  by code_simp

text \<open>
  C4, as amended: for every entity, the incidence table holds no row before the
  entity's 7th row in chronological order (no value of a partial window is emitted),
  and the value at that 7th row, the first that can be emitted, is the arithmetic mean
  of the entity's first 7 daily incidences.

  The rows of the table that belong to entity \<open>e\<close> are the rows of \<open>e\<close> (all of them, no
  other) in chronological order, missing dates last, each with the rolling mean of
  \<open>e\<close>'s own daily incidences, without the rows whose mean is undefined. The mean of
  each of the first six rows is undefined; the mean of the seventh row is the sum of
  the first seven daily incidences divided by 7 (and undefined when one of the seven
  is); an entity with fewer than seven rows has no row in the table.
\<close>

theorem incidence_needs_full_window:
  assumes "metrica_incidencia_7d datos = Inr out"
  shows "filter (\<lambda>x. inc_location x = e) out =
           map (\<lambda>(r, v). \<lparr>inc_date = date r, inc_location = location r, incidencia_7d = v\<rparr>)
             (filter (\<lambda>(r, v). v \<noteq> None)
                (zip (entity_rows datos e)
                     (rolling_mean 7 7 (map incidencia_diaria (entity_rows datos e))))) \<and>
         mset (entity_rows datos e) = mset (filter (\<lambda>r. location r = e) datos) \<and>
         (\<forall>i j. i < j \<and> j < length (entity_rows datos e) \<longrightarrow>
            (\<forall>a b. date (entity_rows datos e ! i) = Day a \<and>
                   date (entity_rows datos e ! j) = Day b \<longrightarrow> a \<le> b) \<and>
            (date (entity_rows datos e ! i) = NaT \<longrightarrow> date (entity_rows datos e ! j) = NaT)) \<and>
         (\<forall>j<length (entity_rows datos e). j < 6 \<longrightarrow>
            rolling_mean 7 7 (map incidencia_diaria (entity_rows datos e)) ! j = None) \<and>
         (7 \<le> length (entity_rows datos e) \<longrightarrow>
            rolling_mean 7 7 (map incidencia_diaria (entity_rows datos e)) ! 6 =
              (if None \<in> set (take 7 (map incidencia_diaria (entity_rows datos e))) then None
               else Some (sum_list (map the (take 7 (map incidencia_diaria (entity_rows datos e)))) / 7))) \<and>
         (length (entity_rows datos e) < 7 \<longrightarrow> filter (\<lambda>x. inc_location x = e) out = [])"
proof -
  let ?E = "entity_rows datos e"
  let ?s = "map incidencia_diaria ?E"
  have ent: "filter (\<lambda>x. inc_location x = e) out =
           map (\<lambda>(r, v). \<lparr>inc_date = date r, inc_location = location r, incidencia_7d = v\<rparr>)
             (filter (\<lambda>(r, v). v \<noteq> None) (zip ?E (rolling_mean 7 7 ?s)))"
    using assms by (rule incidence_output_entity)
  have ms: "mset ?E = mset (filter (\<lambda>r. location r = e) datos)"
    by (rule mset_entity_rows)
  have chrono: "\<forall>i j. i < j \<and> j < length ?E \<longrightarrow>
            (\<forall>a b. date (?E ! i) = Day a \<and> date (?E ! j) = Day b \<longrightarrow> a \<le> b) \<and>
            (date (?E ! i) = NaT \<longrightarrow> date (?E ! j) = NaT)"
    using entity_rows_chronological [OF metrica_incidencia_7d_dates [OF assms]] by blast
  have part: "\<forall>j<length ?E. j < 6 \<longrightarrow> rolling_mean 7 7 ?s ! j = None"
    by (simp add: nth_rolling_mean_7)
  have full: "7 \<le> length ?E \<longrightarrow> rolling_mean 7 7 ?s ! 6 =
          (if None \<in> set (take 7 ?s) then None else Some (sum_list (map the (take 7 ?s)) / 7))"
    by (simp add: nth_rolling_mean_7 window_first_seven)
  have few: "length ?E < 7 \<longrightarrow> filter (\<lambda>x. inc_location x = e) out = []"
  proof
    assume "length ?E < 7"
    then have "\<forall>j<length (rolling_mean 7 7 ?s). rolling_mean 7 7 ?s ! j = None"
      by (simp add: length_rolling_mean nth_rolling_mean_7)
    then have "filter (\<lambda>(r, v). v \<noteq> None) (zip ?E (rolling_mean 7 7 ?s)) = []"
      by (rule filter_zip_all_None)
    with ent show "filter (\<lambda>x. inc_location x = e) out = []" by simp
  qed
  show ?thesis
    by (rule conjI [OF ent conjI [OF ms conjI [OF chrono conjI [OF part conjI [OF full few]]]]])
qed

theorem incidence_needs_full_window_witness:
  "metrica_incidencia_7d shuffled_days =
     Inr [\<lparr>inc_date = Day 7, inc_location = ''Ecuador'', incidencia_7d = Some 4\<rparr>,
          \<lparr>inc_date = Day 8, inc_location = ''Ecuador'', incidencia_7d = Some 5\<rparr>] \<and>
   map date (take 2 shuffled_days) = [Day 5, Day 2] \<and>
   date (entity_rows shuffled_days ''Ecuador'' ! 0) = Day 1 \<and>
   date (entity_rows shuffled_days ''Ecuador'' ! 1) = Day 2 \<and>
   (1 :: int) \<le> 2 \<and>
   7 \<le> length (entity_rows shuffled_days ''Ecuador'') \<and>
   rolling_mean 7 7 (map incidencia_diaria (entity_rows shuffled_days ''Ecuador'')) ! 5 = None \<and>
   None \<notin> set (take 7 (map incidencia_diaria (entity_rows shuffled_days ''Ecuador''))) \<and>
   rolling_mean 7 7 (map incidencia_diaria (entity_rows shuffled_days ''Ecuador'')) ! 6 =
     Some (sum_list (map the (take 7 (map incidencia_diaria (entity_rows shuffled_days ''Ecuador'')))) / 7) \<and>
   sum_list (map the (take 7 (map incidencia_diaria (entity_rows shuffled_days ''Ecuador'')))) / 7
     = 4 \<and>
   length (entity_rows shuffled_days ''Peru'') < 7 \<and>
   filter (\<lambda>x. inc_location x = ''Peru'')
     [\<lparr>inc_date = Day 7, inc_location = ''Ecuador'', incidencia_7d = Some 4\<rparr>,
      \<lparr>inc_date = Day 8, inc_location = ''Ecuador'', incidencia_7d = Some 5\<rparr>] = []"
proof -
  let ?E = "entity_rows shuffled_days ''Ecuador''"
  let ?out = "[\<lparr>inc_date = Day 7, inc_location = ''Ecuador'', incidencia_7d = Some 4\<rparr>,
          \<lparr>inc_date = Day 8, inc_location = ''Ecuador'', incidencia_7d = Some 5\<rparr>]"
  have h: "metrica_incidencia_7d shuffled_days = Inr ?out"
    by code_simp
  have arr: "map date (take 2 shuffled_days) = [Day 5, Day 2]"
    by code_simp
  have d0: "date (?E ! 0) = Day 1" and d1: "date (?E ! 1) = Day 2"
    by code_simp+
  have len: "length ?E = 8"
    by code_simp
  have n: "None \<notin> set (take 7 (map incidencia_diaria ?E))"
    by code_simp
  have s: "sum_list (map the (take 7 (map incidencia_diaria ?E))) / 7 = 4"
    by code_simp
  have lp: "length (entity_rows shuffled_days ''Peru'') = 1"
    by code_simp
  note w = incidence_needs_full_window [OF h, of "''Ecuador''"]
  note p = incidence_needs_full_window [OF h, of "''Peru''"]
  have ij: "(0 :: nat) < 1 \<and> 1 < length ?E"
    using len by simp
  from w ij d0 d1 have o: "(1 :: int) \<le> 2"
    by blast
  have l7: "7 \<le> length ?E" and l5: "5 < length ?E"
    using len by simp_all
  from w l5 have a1: "rolling_mean 7 7 (map incidencia_diaria ?E) ! 5 = None"
    by simp
  from w l7 n have a2: "rolling_mean 7 7 (map incidencia_diaria ?E) ! 6 =
     Some (sum_list (map the (take 7 (map incidencia_diaria ?E))) / 7)"
    by simp
  have lp': "length (entity_rows shuffled_days ''Peru'') < 7"
    using lp by simp
  from p lp' have a3: "filter (\<lambda>x. inc_location x = ''Peru'') ?out = []"
    by blast
  show ?thesis
    by (rule conjI [OF h conjI [OF arr conjI [OF d0 conjI [OF d1 conjI [OF o conjI [OF l7
          conjI [OF a1 conjI [OF n conjI [OF a2 conjI [OF s conjI [OF lp' a3]]]]]]]]]]])
qed

subsection \<open>C5: a population of 0\<close>

text \<open>
  C5: in \<^verbatim>\<open>metrica_incidencia_7d\<close>, a row whose population is 0 never triggers a
  division; its daily incidence is undefined, and the rolling mean leaves it out as it
  leaves out any missing value. The replacement \<^verbatim>\<open>replace({0: pd.NA})\<close> that is
  meant to do this (its comment: avoid the division by zero) makes the cell undefined
  and the whole column a column of objects, which the rolling mean refuses: for a week
  whose first day has population 0, the asset raises \<^verbatim>\<open>DataError\<close> and gives no
  table at all.
\<close>

theorem zero_population_raises:
  "population (zero_population_week ! 0) = Some 0 \<and>
   incidencia_diaria (zero_population_week ! 0) = None \<and>
   Unparseable \<notin> set (map date zero_population_week) \<and>
   metrica_incidencia_7d zero_population_week = Inl DataError"
  by code_simp

section \<open>The claims about the tables with arbitrary columns\<close>

subsection \<open>C6: the labels and the row count of the normalized table\<close>

text \<open>
  C6 states that for every input table, also one whose headers differ only in letter
  case, surrounding whitespace or a byte-order mark, no two columns of the result of
  \<^verbatim>\<open>_canon\<close> carry the same canonical name, and that the row count is unchanged.
  \<^verbatim>\<open>_canon\<close> never merges or drops a column: the headers \<^verbatim>\<open>Date\<close> and
  \<^verbatim>\<open>date\<close> both become \<^verbatim>\<open>date\<close>.
\<close>

theorem canon_two_date_columns:
  "(case canon ascii_lower clashing_headers 0 of
      None \<Rightarrow> None
    | Some (h', b) \<Rightarrow> map_option columns (frames h' b)) = Some [''date'', ''date''] \<and>
   count_list [''date'', ''date''] ''date'' = 2"
  by code_simp

text \<open>
  C6, as amended: the rows of the result are the rows of the input (the row count is
  unchanged), and its labels are the cleaned labels of the input (stripped, without the
  byte-order mark, in lower case, whatever the lower-casing function) after the renaming.
  When no accepted alias of a canonical name occurs twice among the cleaned headers,
  that canonical name labels at most one column of the result; when the cleaned headers
  are pairwise distinct, so are the labels of the result.
\<close>

theorem canon_labels_and_rows:
  assumes "frames h a = Some df" and "canon lower h a = Some (h', b)"
  shows "\<exists>out. frames h' b = Some out \<and>
           columns out = map (renamed (map (clean_header lower) (columns df))) (map (clean_header lower) (columns df)) \<and>
           rows out = rows df \<and>
           length (rows out) = length (rows df) \<and>
           (distinct (map (clean_header lower) (columns df)) \<longrightarrow> distinct (columns out)) \<and>
           (\<forall>(c, cands) \<in> set ALT.
              (\<forall>al \<in> set cands. count_list (map (clean_header lower) (columns df)) al \<le> 1) \<longrightarrow>
              count_list (columns out) c \<le> 1)"
proof -
  let ?cols = "map (clean_header lower) (columns df)"
  let ?out = "rename (df\<lparr>columns := ?cols\<rparr>) (rename_loop ALT ?cols [])"
  have out: "frames h' b = Some ?out"
    using assms by (rule canon_returned)
  have cols: "columns ?out = map (renamed ?cols) ?cols"
    by (simp only: columns_rename) simp
  have rws: "rows ?out = rows df"
    by (simp add: rows_rename)
  have dist: "distinct ?cols \<longrightarrow> distinct (columns ?out)"
    unfolding cols by (rule impI) (rule distinct_renamed)
  have once: "\<forall>(c, cands) \<in> set ALT.
              (\<forall>al \<in> set cands. count_list ?cols al \<le> 1) \<longrightarrow> count_list (columns ?out) c \<le> 1"
    unfolding cols using canonical_label_once by blast
  from out cols rws dist once show ?thesis by simp
qed

theorem canon_labels_and_rows_witness:
  "frames alias_headers 0 =
     Some \<lparr>columns = ['' Entity'', ''Day'', ''new_cases''],
           rows = [[Str ''Peru'', Str ''2021-01-01'', Num 3]]\<rparr> \<and>
   distinct (map (clean_header ascii_lower) ['' Entity'', ''Day'', ''new_cases'']) \<and>
   (case canon ascii_lower alias_headers 0 of
      None \<Rightarrow> False
    | Some (h', b) \<Rightarrow>
        (\<exists>out. frames h' b = Some out \<and> length (rows out) = 1 \<and> distinct (columns out) \<and>
               count_list (columns out) ''location'' \<le> 1))"
proof -
  let ?df = "\<lparr>columns = ['' Entity'', ''Day'', ''new_cases''],
              rows = [[Str ''Peru'', Str ''2021-01-01'', Num 3]]\<rparr>"
  let ?cands = "[''location'', ''entity'', ''country'', ''country_name'', ''location_name'', ''place'']"
  have f: "frames alias_headers 0 = Some ?df"
    by (simp add: alias_headers_def)
  have "canon ascii_lower alias_headers 0 \<noteq> None"
    by code_simp
  then obtain h' b where c: "canon ascii_lower alias_headers 0 = Some (h', b)"
    by (cases "canon ascii_lower alias_headers 0") auto
  have d: "distinct (map (clean_header ascii_lower) (columns ?df))"
    by code_simp
  have o: "\<forall>al \<in> set ?cands. count_list (map (clean_header ascii_lower) (columns ?df)) al \<le> 1"
    by code_simp
  have m: "(''location'', ?cands) \<in> set ALT"
    by (simp add: ALT_def)
  from canon_labels_and_rows [OF f c] obtain out where
    out: "frames h' b = Some out" "rows out = rows ?df"
      "distinct (map (clean_header ascii_lower) (columns ?df)) \<longrightarrow> distinct (columns out)"
      "\<forall>(c, cands) \<in> set ALT.
          (\<forall>al \<in> set cands. count_list (map (clean_header ascii_lower) (columns ?df)) al \<le> 1) \<longrightarrow>
          count_list (columns out) c \<le> 1"
    by blast
  from out(3) d have 1: "distinct (columns out)" by blast
  from out(4) m o have 2: "count_list (columns out) ''location'' \<le> 1" by blast
  from out(2) have 3: "length (rows out) = 1" by simp
  from d have d': "distinct (map (clean_header ascii_lower) ['' Entity'', ''Day'', ''new_cases''])" by simp
  show ?thesis
    using f c out(1) 1 2 3 d' by auto
qed

subsection \<open>C7: what \<^verbatim>\<open>_canon\<close> does to the caller's table\<close>

text \<open>
  C7 states that \<^verbatim>\<open>_canon\<close> is pure: the caller's table, its column names
  included, is left unchanged. The first statement of \<^verbatim>\<open>_canon\<close> assigns the cleaned
  headers to \<^verbatim>\<open>df.columns\<close> of the table it was given: after the call, the
  caller's table carries the cleaned headers.
\<close>

theorem canon_changes_caller_headers:
  "map_option columns (frames alias_headers 0) = Some ['' Entity'', ''Day'', ''new_cases''] \<and>
   (case canon ascii_lower alias_headers 0 of
      None \<Rightarrow> None
    | Some (h', b) \<Rightarrow> map_option columns (frames h' 0)) = Some [''entity'', ''day'', ''new_cases'']"
  by code_simp

text \<open>
  C7, as amended (for a store whose next reference is still unused): the one side
  effect of \<^verbatim>\<open>_canon\<close> is on the headers of the caller's table, which are
  overwritten by their cleaned forms (stripped, without the byte-order mark, in lower
  case); its cells and rows are untouched, and a table whose headers are clean already
  is left as it was. No other stored table changes. The result is the caller's own
  table exactly when no column is renamed; otherwise it is a new table, at the next
  reference, with the rows of the caller's table and the renamed labels. The renaming
  of aliases is only applied to the result.
\<close>

theorem canon_overwrites_caller_headers:
  assumes "frames h a = Some df" and "frames h (next_ref h) = None"
    and "canon lower h a = Some (h', b)"
  shows "frames h' a = Some (df\<lparr>columns := map (clean_header lower) (columns df)\<rparr>) \<and>
         (map (clean_header lower) (columns df) = columns df \<longrightarrow> frames h' a = Some df) \<and>
         (\<forall>r. r \<noteq> a \<and> r \<noteq> b \<longrightarrow> frames h' r = frames h r) \<and>
         (\<exists>out. frames h' b = Some out \<and> rows out = rows df \<and>
            columns out = map (renamed (map (clean_header lower) (columns df)))
                              (map (clean_header lower) (columns df))) \<and>
         (b = a) = (map (renamed (map (clean_header lower) (columns df)))
                        (map (clean_header lower) (columns df)) =
                    map (clean_header lower) (columns df)) \<and>
         (b \<noteq> a \<longrightarrow> b = next_ref h \<and> frames h b = None)"
proof -
  have 1: "frames h' a = Some (df\<lparr>columns := map (clean_header lower) (columns df)\<rparr>)"
    using assms by (rule canon_caller(1))
  have 2: "map (clean_header lower) (columns df) = columns df \<longrightarrow> frames h' a = Some df"
    using 1 by auto
  have 3: "\<forall>r. r \<noteq> a \<and> r \<noteq> b \<longrightarrow> frames h' r = frames h r"
    using canon_caller(2) [OF assms] by blast
  have 4: "\<exists>out. frames h' b = Some out \<and> rows out = rows df \<and>
            columns out = map (renamed (map (clean_header lower) (columns df)))
                              (map (clean_header lower) (columns df))"
    using canon_result [OF assms(1,3)] by blast
  have 5: "(b = a) = (map (renamed (map (clean_header lower) (columns df)))
                        (map (clean_header lower) (columns df)) =
                    map (clean_header lower) (columns df))"
    using canon_reference(1) [OF assms] by (simp only: nothing_renamed_iff)
  have 6: "b \<noteq> a \<longrightarrow> b = next_ref h \<and> frames h b = None"
    using canon_reference(2) [OF assms] assms(2) by blast
  show ?thesis
    by (rule conjI [OF 1 conjI [OF 2 conjI [OF 3 conjI [OF 4 conjI [OF 5 6]]]]])
qed

theorem canon_overwrites_caller_headers_witness:
  "frames alias_headers 0 =
     Some \<lparr>columns = ['' Entity'', ''Day'', ''new_cases''],
           rows = [[Str ''Peru'', Str ''2021-01-01'', Num 3]]\<rparr> \<and>
   frames alias_headers 1 =
     Some \<lparr>columns = [''location'', ''date''], rows = [[Str ''Ecuador'', Str ''2021-01-02'']]\<rparr> \<and>
   frames alias_headers (next_ref alias_headers) = None \<and>
   (case canon ascii_lower alias_headers 0 of
      None \<Rightarrow> False
    | Some (h', b) \<Rightarrow>
        b = 2 \<and>
        frames h' 0 =
          Some \<lparr>columns = map (clean_header ascii_lower) ['' Entity'', ''Day'', ''new_cases''],
                rows = [[Str ''Peru'', Str ''2021-01-01'', Num 3]]\<rparr> \<and>
        frames h' 1 =
          Some \<lparr>columns = [''location'', ''date''],
                rows = [[Str ''Ecuador'', Str ''2021-01-02'']]\<rparr> \<and>
        (\<exists>out. frames h' b = Some out \<and> rows out = [[Str ''Peru'', Str ''2021-01-01'', Num 3]])) \<and>
   map (clean_header ascii_lower) [''location'', ''date''] = [''location'', ''date''] \<and>
   (case canon ascii_lower alias_headers 1 of
      None \<Rightarrow> False
    | Some (h', b) \<Rightarrow>
        b = 1 \<and>
        frames h' 1 =
          Some \<lparr>columns = [''location'', ''date''],
                rows = [[Str ''Ecuador'', Str ''2021-01-02'']]\<rparr>)"
proof -
  let ?df = "\<lparr>columns = ['' Entity'', ''Day'', ''new_cases''],
              rows = [[Str ''Peru'', Str ''2021-01-01'', Num 3]]\<rparr>"
  let ?dg = "\<lparr>columns = [''location'', ''date''], rows = [[Str ''Ecuador'', Str ''2021-01-02'']]\<rparr>"
  have f: "frames alias_headers 0 = Some ?df" and g: "frames alias_headers 1 = Some ?dg"
    by (simp_all add: alias_headers_def)
  have n: "frames alias_headers (next_ref alias_headers) = None"
    by (simp add: alias_headers_def)
  have nr: "next_ref alias_headers = 2"
    by (simp add: alias_headers_def)
  have "canon ascii_lower alias_headers 0 \<noteq> None"
    by code_simp
  then obtain h' b where c: "canon ascii_lower alias_headers 0 = Some (h', b)"
    by (cases "canon ascii_lower alias_headers 0") auto
  have "canon ascii_lower alias_headers 1 \<noteq> None"
    by code_simp
  then obtain k' d where c1: "canon ascii_lower alias_headers 1 = Some (k', d)"
    by (cases "canon ascii_lower alias_headers 1") auto
  note w = canon_overwrites_caller_headers [OF f n c]
  note v = canon_overwrites_caller_headers [OF g n c1]
  have ren: "map (renamed (map (clean_header ascii_lower) (columns ?df)))
               (map (clean_header ascii_lower) (columns ?df)) \<noteq>
             map (clean_header ascii_lower) (columns ?df)"
    by code_simp
  from w ren have "b \<noteq> 0" by blast
  with w nr have b: "b = 2" by simp
  from w have 1: "frames h' 0 = Some (?df\<lparr>columns := map (clean_header ascii_lower) (columns ?df)\<rparr>)"
    by blast
  from w b g have 2: "frames h' 1 = Some ?dg"
    by auto
  from w have 3: "\<exists>out. frames h' b = Some out \<and> rows out = rows ?df"
    by blast
  have cl: "map (clean_header ascii_lower) [''location'', ''date''] = [''location'', ''date'']"
    by code_simp
  have same: "map (renamed (map (clean_header ascii_lower) (columns ?dg)))
               (map (clean_header ascii_lower) (columns ?dg)) =
             map (clean_header ascii_lower) (columns ?dg)"
    by code_simp
  from v same have d: "d = 1" by blast
  from v cl have 4: "frames k' 1 = Some ?dg"
    by simp
  show ?thesis
    using f g n c c1 b 1 2 3 cl d 4 by simp
qed

subsection \<open>C8: the structural error of \<^verbatim>\<open>datos_procesados\<close>\<close>

text \<open>
  C8: \<^verbatim>\<open>datos_procesados\<close> raises the structural error if and only if one of the
  canonical columns location, date, new_cases, people_vaccinated, population is absent
  from its input; the error is raised before any row is filtered, and its message names
  exactly the columns that are absent.

  The structural error is the \<^verbatim>\<open>KeyError\<close> of \<^verbatim>\<open>_require\<close>. It is the result
  exactly when a required label is not a column. Its message starts with the fixed
  sentence and is followed by the list of the required labels that are not columns; a
  required label stands in the message, between quotes, exactly when it is not a
  column. Whether the error is raised does not depend on the rows: a table with the
  same header and any other rows raises the same error.
\<close>

theorem datos_procesados_structural_error:
  "((\<exists>m. datos_procesados env df = Inl (KeyError m)) =
      (\<exists>c \<in> set required_columns. c \<notin> set (columns df))) \<and>
   (\<forall>m. datos_procesados env df = Inl (KeyError m) \<longrightarrow>
      m = ''Faltan columnas requeridas tras normalizar: '' @
          repr_list (filter (\<lambda>c. c \<notin> set (columns df)) required_columns) \<and>
      prefix ''Faltan columnas requeridas tras normalizar: '' m \<and>
      (\<forall>c \<in> set required_columns.
         sublist ([CHR 0x27] @ c @ [CHR 0x27]) m = (c \<notin> set (columns df)))) \<and>
   (\<forall>rs m. (datos_procesados env (df\<lparr>rows := rs\<rparr>) = Inl (KeyError m)) =
            (datos_procesados env df = Inl (KeyError m)))"
proof -
  let ?missing = "filter (\<lambda>c. c \<notin> set (columns df)) required_columns"
  let ?msg = "''Faltan columnas requeridas tras normalizar: '' @ repr_list ?missing"
  have 1: "(\<exists>m. datos_procesados env df = Inl (KeyError m)) =
      (\<exists>c \<in> set required_columns. c \<notin> set (columns df))"
    by (simp add: datos_procesados_KeyError require_KeyError_iff)
  have "?missing \<in> set (subseqs required_columns)"
    by (simp add: in_set_subseqs)
  then have names: "\<forall>c \<in> set required_columns.
      sublist ([CHR 0x27] @ c @ [CHR 0x27]) ?msg = (c \<in> set ?missing)"
    using message_names_missing by blast
  have 2: "\<forall>m. datos_procesados env df = Inl (KeyError m) \<longrightarrow>
      m = ?msg \<and> prefix ''Faltan columnas requeridas tras normalizar: '' m \<and>
      (\<forall>c \<in> set required_columns.
         sublist ([CHR 0x27] @ c @ [CHR 0x27]) m = (c \<notin> set (columns df)))"
  proof (intro allI impI)
    fix m assume "datos_procesados env df = Inl (KeyError m)"
    then have "require df required_columns = Inl (KeyError m)"
      by (simp only: datos_procesados_KeyError)
    then have "KeyError m = KeyError ?msg"
      by (rule require_Inl)
    then have m: "m = ?msg" by simp
    have p: "prefix ''Faltan columnas requeridas tras normalizar: '' ?msg"
      by (rule message_prefix)
    have n: "\<forall>c \<in> set required_columns.
         sublist ([CHR 0x27] @ c @ [CHR 0x27]) ?msg = (c \<notin> set (columns df))"
    proof
      fix c assume c: "c \<in> set required_columns"
      with names have "sublist ([CHR 0x27] @ c @ [CHR 0x27]) ?msg = (c \<in> set ?missing)"
        by (rule bspec)
      also have "\<dots> = (c \<notin> set (columns df))"
        using c by simp
      finally show "sublist ([CHR 0x27] @ c @ [CHR 0x27]) ?msg = (c \<notin> set (columns df))" .
    qed
    show "m = ?msg \<and> prefix ''Faltan columnas requeridas tras normalizar: '' m \<and>
      (\<forall>c \<in> set required_columns.
         sublist ([CHR 0x27] @ c @ [CHR 0x27]) m = (c \<notin> set (columns df)))"
      unfolding m by (rule conjI [OF refl conjI [OF p n]])
  qed
  have 3: "\<forall>rs m. (datos_procesados env (df\<lparr>rows := rs\<rparr>) = Inl (KeyError m)) =
            (datos_procesados env df = Inl (KeyError m))"
    by (simp add: datos_procesados_KeyError require_rows)
  show ?thesis
    by (rule conjI [OF 1 conjI [OF 2 3]])
qed

theorem datos_procesados_structural_error_witness:
  "datos_procesados Map.empty short_table =
     Inl (KeyError (''Faltan columnas requeridas tras normalizar: ['' @ [CHR 0x27] @
                    ''new_cases'' @ [CHR 0x27] @ '', '' @ [CHR 0x27] @ ''population'' @
                    [CHR 0x27] @ '']'')) \<and>
   ''new_cases'' \<notin> set (columns short_table) \<and>
   sublist ([CHR 0x27] @ ''new_cases'' @ [CHR 0x27])
     (''Faltan columnas requeridas tras normalizar: ['' @ [CHR 0x27] @
      ''new_cases'' @ [CHR 0x27] @ '', '' @ [CHR 0x27] @ ''population'' @ [CHR 0x27] @ '']'') \<and>
   ''date'' \<in> set (columns short_table) \<and>
   \<not> sublist ([CHR 0x27] @ ''date'' @ [CHR 0x27])
     (''Faltan columnas requeridas tras normalizar: ['' @ [CHR 0x27] @
      ''new_cases'' @ [CHR 0x27] @ '', '' @ [CHR 0x27] @ ''population'' @ [CHR 0x27] @ '']'') \<and>
   datos_procesados Map.empty (short_table\<lparr>rows := []\<rparr>) =
     Inl (KeyError (''Faltan columnas requeridas tras normalizar: ['' @ [CHR 0x27] @
                    ''new_cases'' @ [CHR 0x27] @ '', '' @ [CHR 0x27] @ ''population'' @
                    [CHR 0x27] @ '']''))"
proof -
  let ?m = "''Faltan columnas requeridas tras normalizar: ['' @ [CHR 0x27] @
            ''new_cases'' @ [CHR 0x27] @ '', '' @ [CHR 0x27] @ ''population'' @ [CHR 0x27] @ '']''"
  have h: "datos_procesados Map.empty short_table = Inl (KeyError ?m)"
    by code_simp
  have nc: "''new_cases'' \<notin> set (columns short_table)" and d: "''date'' \<in> set (columns short_table)"
    by (simp_all add: short_table_def)
  have rq: "''new_cases'' \<in> set required_columns" "''date'' \<in> set required_columns"
    by (simp_all add: required_columns_def)
  note w = datos_procesados_structural_error [of Map.empty short_table]
  from w h have occ: "\<forall>c \<in> set required_columns.
         sublist ([CHR 0x27] @ c @ [CHR 0x27]) ?m = (c \<notin> set (columns short_table))"
    by blast
  from occ rq(1) nc have 1: "sublist ([CHR 0x27] @ ''new_cases'' @ [CHR 0x27]) ?m"
    by blast
  from occ rq(2) d have 2: "\<not> sublist ([CHR 0x27] @ ''date'' @ [CHR 0x27]) ?m"
    by blast
  from w h have 3: "datos_procesados Map.empty (short_table\<lparr>rows := []\<rparr>) = Inl (KeyError ?m)"
    by blast
  show ?thesis
    by (rule conjI [OF h conjI [OF nc conjI [OF 1 conjI [OF d conjI [OF 2 3]]]]])
qed

subsection \<open>C9: the check \<^verbatim>\<open>unique_loc_date\<close>\<close>

text \<open>
  C9: for every table that has the columns location and date, the check
  \<^verbatim>\<open>unique_loc_date\<close> fails (\<open>passed = False\<close>) if and only if two rows of the table
  carry the same pair of location and date; without such a pair it passes.

  The table is rectangular (every row has a cell for every column). Two rows carry
  the same pair when they have equal cells in every column that is labelled location
  or date (one column each, unless a label is repeated).
\<close>

theorem unique_loc_date_fails_iff_duplicate:
  assumes "''location'' \<in> set (columns df)" and "''date'' \<in> set (columns df)"
    and "\<forall>r \<in> set (rows df). length r = length (columns df)"
  shows "(\<not> passed (unique_loc_date df)) =
           (\<exists>i j. i < j \<and> j < length (rows df) \<and>
              (\<forall>k<length (columns df).
                 columns df ! k = ''location'' \<or> columns df ! k = ''date'' \<longrightarrow>
                 rows df ! i ! k = rows df ! j ! k))"
proof -
  let ?key = "row_key df [''location'', ''date'']"
  have cell: "cell_at (rows df ! i) k = rows df ! i ! k"
    if "i < length (rows df)" "k < length (columns df)" for i k
  proof -
    have "rows df ! i \<in> set (rows df)" using that(1) by simp
    with assms(3) have "length (rows df ! i) = length (columns df)" by blast
    with that(2) show ?thesis by (simp add: cell_at_def)
  qed
  have "(\<not> passed (unique_loc_date df)) =
          (\<exists>i j. i < j \<and> j < length (rows df) \<and> ?key (rows df ! i) = ?key (rows df ! j))"
    using unique_loc_date_passed [OF assms(1,2)] not_distinct_pair [of ?key "rows df"]
    by simp
  also have "\<dots> = (\<exists>i j. i < j \<and> j < length (rows df) \<and>
              (\<forall>k<length (columns df).
                 columns df ! k = ''location'' \<or> columns df ! k = ''date'' \<longrightarrow>
                 rows df ! i ! k = rows df ! j ! k))"
  proof -
    have "(?key (rows df ! i) = ?key (rows df ! j)) =
          (\<forall>k<length (columns df).
                 columns df ! k = ''location'' \<or> columns df ! k = ''date'' \<longrightarrow>
                 rows df ! i ! k = rows df ! j ! k)"
      if "i < j" "j < length (rows df)" for i j
    proof -
      have i: "i < length (rows df)" using that by simp
      show ?thesis
        unfolding row_key_eq_iff using cell [OF i] cell [OF that(2)] by auto
    qed
    then show ?thesis by blast
  qed
  finally show ?thesis .
qed

theorem unique_loc_date_fails_iff_duplicate_witness:
  "''location'' \<in> set (columns repeated_key_table) \<and>
   ''date'' \<in> set (columns repeated_key_table) \<and>
   columns repeated_key_table = [''new_cases'', ''date'', ''location''] \<and>
   rows repeated_key_table ! 1 ! 1 = rows repeated_key_table ! 2 ! 1 \<and>
   rows repeated_key_table ! 1 ! 2 = rows repeated_key_table ! 2 ! 2 \<and>
   \<not> passed (unique_loc_date repeated_key_table) \<and>
   ''location'' \<in> set (columns two_date_columns_table) \<and>
   ''date'' \<in> set (columns two_date_columns_table) \<and>
   passed (unique_loc_date two_date_columns_table) \<and>
   columns two_date_columns_table ! 2 = ''date'' \<and>
   rows two_date_columns_table ! 0 ! 2 \<noteq> rows two_date_columns_table ! 1 ! 2"
proof -
  have a: "''location'' \<in> set (columns repeated_key_table)"
    "''date'' \<in> set (columns repeated_key_table)"
    "\<forall>r \<in> set (rows repeated_key_table). length r = length (columns repeated_key_table)"
    by (simp_all add: repeated_key_table_def)
  have cols: "columns repeated_key_table = [''new_cases'', ''date'', ''location'']"
    by (simp add: repeated_key_table_def)
  have e1: "rows repeated_key_table ! 1 ! 1 = rows repeated_key_table ! 2 ! 1"
    and e2: "rows repeated_key_table ! 1 ! 2 = rows repeated_key_table ! 2 ! 2"
    by (simp_all add: repeated_key_table_def)
  have "\<forall>k<length (columns repeated_key_table).
          columns repeated_key_table ! k = ''location'' \<or> columns repeated_key_table ! k = ''date''
          \<longrightarrow> rows repeated_key_table ! 1 ! k = rows repeated_key_table ! 2 ! k"
    by (simp add: repeated_key_table_def less_Suc_eq numeral_3_eq_3)
  moreover have "(1 :: nat) < 2 \<and> 2 < length (rows repeated_key_table)"
    by (simp add: repeated_key_table_def)
  ultimately have 1: "\<not> passed (unique_loc_date repeated_key_table)"
    using unique_loc_date_fails_iff_duplicate [OF a] by blast
  have b: "''location'' \<in> set (columns two_date_columns_table)"
    "''date'' \<in> set (columns two_date_columns_table)"
    "\<forall>r \<in> set (rows two_date_columns_table). length r = length (columns two_date_columns_table)"
    by (simp_all add: two_date_columns_table_def)
  have c2: "columns two_date_columns_table ! 2 = ''date''"
    and ne: "rows two_date_columns_table ! 0 ! 2 \<noteq> rows two_date_columns_table ! 1 ! 2"
    by (simp_all add: two_date_columns_table_def)
  have len: "length (rows two_date_columns_table) = 2" "length (columns two_date_columns_table) = 3"
    by (simp_all add: two_date_columns_table_def)
  have "\<not> (\<exists>i j. i < j \<and> j < length (rows two_date_columns_table) \<and>
              (\<forall>k<length (columns two_date_columns_table).
                 columns two_date_columns_table ! k = ''location'' \<or>
                 columns two_date_columns_table ! k = ''date'' \<longrightarrow>
                 rows two_date_columns_table ! i ! k = rows two_date_columns_table ! j ! k))"
  proof
    assume "\<exists>i j. i < j \<and> j < length (rows two_date_columns_table) \<and>
              (\<forall>k<length (columns two_date_columns_table).
                 columns two_date_columns_table ! k = ''location'' \<or>
                 columns two_date_columns_table ! k = ''date'' \<longrightarrow>
                 rows two_date_columns_table ! i ! k = rows two_date_columns_table ! j ! k)"
    then obtain i j where ij: "i < j" "j < 2"
      and eq: "\<forall>k<3. columns two_date_columns_table ! k = ''location'' \<or>
                 columns two_date_columns_table ! k = ''date'' \<longrightarrow>
                 rows two_date_columns_table ! i ! k = rows two_date_columns_table ! j ! k"
      using len by auto
    from ij have "i = 0" "j = 1" by simp_all
    with eq c2 have "rows two_date_columns_table ! 0 ! 2 = rows two_date_columns_table ! 1 ! 2"
      by simp
    with ne show False by simp
  qed
  then have 2: "passed (unique_loc_date two_date_columns_table)"
    using unique_loc_date_fails_iff_duplicate [OF b] by blast
  show ?thesis
    by (rule conjI [OF a(1) conjI [OF a(2) conjI [OF cols conjI [OF e1 conjI [OF e2 conjI [OF 1
          conjI [OF b(1) conjI [OF b(2) conjI [OF 2 conjI [OF c2 ne]]]]]]]]]])
qed

subsection \<open>C10: rows without population stay in the processed table\<close>

text \<open>
  C10 states that \<^verbatim>\<open>datos_procesados\<close> drops a row only when its new_cases or
  people_vaccinated is missing, so that a row whose population is missing (or not
  positive) stays in the processed table and reaches the metrics, where a missing
  population gives an undefined daily incidence and no error. A missing cell is not the
  only reason for a drop: \<^verbatim>\<open>drop_duplicates\<close> and the country filter drop rows
  too. In the raw table below, the row of Chile and the second row of Ecuador for
  2021-01-01 have both cells, and neither is in the processed table. And the processed
  table of this raw table, whose row of Peru has population 0, makes the incidence
  metric raise.
\<close>

theorem complete_rows_dropped:
  "[Str ''Chile'', Str ''2021-01-02'', Num 1, Num 10, Num 7] \<in> set (rows raw_table) \<and>
   complete_row raw_table [Str ''Chile'', Str ''2021-01-02'', Num 1, Num 10, Num 7] \<and>
   [Str ''Ecuador'', Str ''2021-01-01'', Num 6, Num 10, Num 7] \<in> set (rows raw_table) \<and>
   complete_row raw_table [Str ''Ecuador'', Str ''2021-01-01'', Num 6, Num 10, Num 7] \<and>
   datos_procesados Map.empty raw_table =
     Inr \<lparr>columns = required_columns,
          rows = [[Str ''Ecuador'', Str ''2021-01-01'', Num 5, Num 10, NA],
                  [Str ''Peru'', Str ''2021-01-02'', Num 1, Num 10, Num 0]]\<rparr> \<and>
   processed_rows stamp_2021
     \<lparr>columns = required_columns,
      rows = [[Str ''Ecuador'', Str ''2021-01-01'', Num 5, Num 10, NA],
              [Str ''Peru'', Str ''2021-01-02'', Num 1, Num 10, Num 0]]\<rparr> =
     Some [\<lparr>location = ''Ecuador'', date = Day 18628, new_cases = Some 5,
              people_vaccinated = Some 10, population = None\<rparr>,
           \<lparr>location = ''Peru'', date = Day 18629, new_cases = Some 1,
              people_vaccinated = Some 10, population = Some 0\<rparr>] \<and>
   metrica_incidencia_7d
     [\<lparr>location = ''Ecuador'', date = Day 18628, new_cases = Some 5,
        people_vaccinated = Some 10, population = None\<rparr>,
      \<lparr>location = ''Peru'', date = Day 18629, new_cases = Some 1,
        people_vaccinated = Some 10, population = Some 0\<rparr>] = Inl DataError"
  by code_simp

text \<open>
  C10, as amended: the only missing cells that make \<^verbatim>\<open>datos_procesados\<close> drop a row
  are new_cases and people_vaccinated; the population cell is never consulted. The
  processed table is the projection of the rows that are complete (new cases and
  vaccination count present), first of their pair of location and date among the
  complete rows, and of a configured country. So every complete row of a configured
  country, whatever its population, is represented in the processed table by the first
  complete row with its location and date, by itself when no other row shares them, and
  every processed row is the projection of such a row. When the labels of the raw table
  are distinct, the processed table has exactly the five required columns, and a
  processed row whose population cell is missing is read by the metrics as a row without
  population, which has no daily incidence. For the rows \<open>rs\<close> that the metrics read
  from the processed table, the incidence metric raises in two cases only: a date that
  cannot be parsed, and, the dates being parseable, a population that is exactly 0
  somewhere in the table (see C5); a missing or a negative population raises nothing.
  The growth metric raises only for a date that cannot be parsed.
\<close>

theorem null_population_rows_retained:
  assumes "datos_procesados env df = Inr out"
  shows "rows out =
           map (row_key df required_columns)
             (filter (selected_country env df)
                (first_of_key [] (row_key df [''location'', ''date''])
                   (filter (complete_row df) (rows df)))) \<and>
         (\<forall>r \<in> set (rows df). complete_row df r \<and> selected_country env df r \<longrightarrow>
            (\<exists>r0 \<in> set (rows df). complete_row df r0 \<and>
               row_key df [''location'', ''date''] r0 = row_key df [''location'', ''date''] r \<and>
               row_key df required_columns r0 \<in> set (rows out))) \<and>
         (\<forall>r \<in> set (rows df). complete_row df r \<and> selected_country env df r \<and>
            (\<forall>r' \<in> set (rows df).
               row_key df [''location'', ''date''] r' = row_key df [''location'', ''date''] r
               \<longrightarrow> r' = r) \<longrightarrow>
            row_key df required_columns r \<in> set (rows out)) \<and>
         (\<forall>x \<in> set (rows out). \<exists>r \<in> set (rows df). complete_row df r \<and>
            selected_country env df r \<and> x = row_key df required_columns r) \<and>
         (distinct (columns df) \<longrightarrow>
            columns out = required_columns \<and>
            (\<forall>x \<in> set (rows out). \<forall>p.
               as_prow stamp x = Some p \<and> row_key out [''population''] x = [NA] \<longrightarrow>
               population p = None \<and> incidencia_diaria p = None)) \<and>
         (\<forall>rs. processed_rows stamp out = Some rs \<longrightarrow>
            (\<forall>e. (metrica_incidencia_7d rs = Inl e) =
                  (Unparseable \<in> set (map date rs) \<and> e = DateParseError \<or>
                   Unparseable \<notin> set (map date rs) \<and> Some 0 \<in> set (map population rs) \<and>
                   e = DataError)) \<and>
            (\<forall>e. (metrica_factor_crec_7d rs = Inl e) =
                  (Unparseable \<in> set (map date rs) \<and> e = DateParseError)))"
proof -
  let ?key = "row_key df [''location'', ''date'']"
  let ?kept = "first_of_key [] ?key (filter (complete_row df) (rows df))"
  have A: "rows out = map (row_key df required_columns) (filter (selected_country env df) ?kept)"
    using assms by (rule datos_procesados_rows)
  have sub: "set ?kept \<subseteq> set (filter (complete_row df) (rows df))"
    by (rule set_first_of_key)
  have B: "\<exists>r0 \<in> set (rows df). complete_row df r0 \<and> ?key r0 = ?key r \<and>
             row_key df required_columns r0 \<in> set (rows out)"
    if r: "r \<in> set (rows df)" "complete_row df r" "selected_country env df r" for r
  proof -
    from r have "r \<in> set (filter (complete_row df) (rows df))" by simp
    then obtain r0 where r0: "r0 \<in> set ?kept" "?key r0 = ?key r"
      using first_of_key_covers [of r "filter (complete_row df) (rows df)" ?key "[]"] by auto
    with sub have in0: "r0 \<in> set (rows df)" "complete_row df r0" by auto
    have "selected_country env df r0"
      using key_location [OF r0(2)] r(3) by simp
    with r0 have "row_key df required_columns r0 \<in> set (rows out)"
      unfolding A by simp
    with in0 r0 show ?thesis by blast
  qed
  have C: "row_key df required_columns r \<in> set (rows out)"
    if r: "r \<in> set (rows df)" "complete_row df r" "selected_country env df r"
      and u: "\<forall>r' \<in> set (rows df). ?key r' = ?key r \<longrightarrow> r' = r" for r
  proof -
    from B [OF r] obtain r0 where "r0 \<in> set (rows df)" "?key r0 = ?key r"
      "row_key df required_columns r0 \<in> set (rows out)" by blast
    with u show ?thesis by auto
  qed
  have D: "\<exists>r \<in> set (rows df). complete_row df r \<and> selected_country env df r \<and>
             x = row_key df required_columns r" if "x \<in> set (rows out)" for x
  proof -
    from that obtain r where "r \<in> set ?kept" "selected_country env df r"
      "x = row_key df required_columns r"
      unfolding A by auto
    with sub show ?thesis by auto
  qed
  have B': "\<forall>r \<in> set (rows df). complete_row df r \<and> selected_country env df r \<longrightarrow>
            (\<exists>r0 \<in> set (rows df). complete_row df r0 \<and> ?key r0 = ?key r \<and>
               row_key df required_columns r0 \<in> set (rows out))"
    using B by blast
  have C': "\<forall>r \<in> set (rows df). complete_row df r \<and> selected_country env df r \<and>
            (\<forall>r' \<in> set (rows df). ?key r' = ?key r \<longrightarrow> r' = r) \<longrightarrow>
            row_key df required_columns r \<in> set (rows out)"
    using C by blast
  have D': "\<forall>x \<in> set (rows out). \<exists>r \<in> set (rows df). complete_row df r \<and>
            selected_country env df r \<and> x = row_key df required_columns r"
    using D by blast
  have E: "distinct (columns df) \<longrightarrow>
            columns out = required_columns \<and>
            (\<forall>x \<in> set (rows out). \<forall>p.
               as_prow stamp x = Some p \<and> row_key out [''population''] x = [NA] \<longrightarrow>
               population p = None \<and> incidencia_diaria p = None)"
  proof (intro impI conjI ballI allI)
    assume d: "distinct (columns df)"
    show cols: "columns out = required_columns"
      using assms d by (rule datos_procesados_columns)
    fix x p
    assume "x \<in> set (rows out)"
      and xp: "as_prow stamp x = Some p \<and> row_key out [''population''] x = [NA]"
    from xp obtain l dc nc pv pop where x: "x = [Str l, dc, nc, pv, pop]"
      and n: "number_of pop = Some (population p)"
      using as_prow_population by blast
    have "positions out ''population'' = [4]"
      using positions_population [of "rows out"] cols
      by (simp add: positions_def)
    then have "row_key out [''population''] x = [pop]"
      by (simp add: row_key_def cell_at_def x)
    with xp have "pop = NA" by simp
    with n show "population p = None" by simp
    then show "incidencia_diaria p = None"
      by (rule incidencia_diaria_null_population)
  qed
  have F: "\<forall>rs. processed_rows stamp out = Some rs \<longrightarrow>
            (\<forall>e. (metrica_incidencia_7d rs = Inl e) =
                  (Unparseable \<in> set (map date rs) \<and> e = DateParseError \<or>
                   Unparseable \<notin> set (map date rs) \<and> Some 0 \<in> set (map population rs) \<and>
                   e = DataError)) \<and>
            (\<forall>e. (metrica_factor_crec_7d rs = Inl e) =
                  (Unparseable \<in> set (map date rs) \<and> e = DateParseError))"
    by (intro allI impI conjI)
       (rule metrica_incidencia_7d_error, rule metrica_factor_crec_7d_error)
  show ?thesis
    by (rule conjI [OF A conjI [OF B' conjI [OF C' conjI [OF D' conjI [OF E F]]]]])
qed

theorem null_population_rows_retained_witness:
  "datos_procesados Map.empty raw_table_negative =
     Inr \<lparr>columns = required_columns,
          rows = [[Str ''Ecuador'', Str ''2021-01-01'', Num 5, Num 10, NA],
                  [Str ''Peru'', Str ''2021-01-02'', Num 1, Num 10, Num (- 3)]]\<rparr> \<and>
   complete_row raw_table_negative [Str ''Ecuador'', Str ''2021-01-01'', Num 5, Num 10, NA] \<and>
   selected_country Map.empty raw_table_negative
     [Str ''Ecuador'', Str ''2021-01-01'', Num 5, Num 10, NA] \<and>
   (\<exists>r0 \<in> set (rows raw_table_negative).
      row_key raw_table_negative [''location'', ''date''] r0 =
        row_key raw_table_negative [''location'', ''date'']
          [Str ''Ecuador'', Str ''2021-01-01'', Num 5, Num 10, NA] \<and>
      row_key raw_table_negative required_columns r0 \<in>
        set [[Str ''Ecuador'', Str ''2021-01-01'', Num 5, Num 10, NA],
             [Str ''Peru'', Str ''2021-01-02'', Num 1, Num 10, Num (- 3)]]) \<and>
   row_key raw_table_negative required_columns
       [Str ''Peru'', Str ''2021-01-02'', Num 1, Num 10, Num (- 3)] \<in>
     set [[Str ''Ecuador'', Str ''2021-01-01'', Num 5, Num 10, NA],
          [Str ''Peru'', Str ''2021-01-02'', Num 1, Num 10, Num (- 3)]] \<and>
   distinct (columns raw_table_negative) \<and>
   as_prow stamp_2021 [Str ''Ecuador'', Str ''2021-01-01'', Num 5, Num 10, NA] =
     Some \<lparr>location = ''Ecuador'', date = Day 18628, new_cases = Some 5,
            people_vaccinated = Some 10, population = None\<rparr> \<and>
   incidencia_diaria
     \<lparr>location = ''Ecuador'', date = Day 18628, new_cases = Some 5,
       people_vaccinated = Some 10, population = None\<rparr> = None \<and>
   processed_rows stamp_2021
     \<lparr>columns = required_columns,
      rows = [[Str ''Ecuador'', Str ''2021-01-01'', Num 5, Num 10, NA],
              [Str ''Peru'', Str ''2021-01-02'', Num 1, Num 10, Num (- 3)]]\<rparr> =
     Some [\<lparr>location = ''Ecuador'', date = Day 18628, new_cases = Some 5,
              people_vaccinated = Some 10, population = None\<rparr>,
           \<lparr>location = ''Peru'', date = Day 18629, new_cases = Some 1,
              people_vaccinated = Some 10, population = Some (- 3)\<rparr>] \<and>
   (\<nexists>e. metrica_incidencia_7d
           [\<lparr>location = ''Ecuador'', date = Day 18628, new_cases = Some 5,
              people_vaccinated = Some 10, population = None\<rparr>,
            \<lparr>location = ''Peru'', date = Day 18629, new_cases = Some 1,
              people_vaccinated = Some 10, population = Some (- 3)\<rparr>] = Inl e) \<and>
   (\<nexists>e. metrica_factor_crec_7d
           [\<lparr>location = ''Ecuador'', date = Day 18628, new_cases = Some 5,
              people_vaccinated = Some 10, population = None\<rparr>,
            \<lparr>location = ''Peru'', date = Day 18629, new_cases = Some 1,
              people_vaccinated = Some 10, population = Some (- 3)\<rparr>] = Inl e)"
proof -
  let ?r1 = "[Str ''Ecuador'', Str ''2021-01-01'', Num 5, Num 10, NA]"
  let ?r5 = "[Str ''Peru'', Str ''2021-01-02'', Num 1, Num 10, Num (- 3)]"
  let ?p1 = "\<lparr>location = ''Ecuador'', date = Day 18628, new_cases = Some 5,
               people_vaccinated = Some 10, population = None\<rparr>"
  let ?p5 = "\<lparr>location = ''Peru'', date = Day 18629, new_cases = Some 1,
               people_vaccinated = Some 10, population = Some (- 3)\<rparr>"
  let ?df = raw_table_negative
  let ?out = "\<lparr>columns = required_columns, rows = [?r1, ?r5]\<rparr>"
  have h: "datos_procesados Map.empty ?df = Inr ?out"
    by code_simp
  have m1: "?r1 \<in> set (rows ?df)" and m5: "?r5 \<in> set (rows ?df)"
    by (simp_all add: raw_table_negative_def)
  have c1: "complete_row ?df ?r1" and c5: "complete_row ?df ?r5"
    by code_simp+
  have s1: "selected_country Map.empty ?df ?r1"
    and s5: "selected_country Map.empty ?df ?r5"
    by code_simp+
  have u5: "\<forall>r' \<in> set (rows ?df).
      row_key ?df [''location'', ''date''] r' = row_key ?df [''location'', ''date''] ?r5
      \<longrightarrow> r' = ?r5"
    by code_simp
  have dist: "distinct (columns ?df)"
    by code_simp
  have a1: "as_prow stamp_2021 ?r1 = Some ?p1"
    by code_simp
  have k1: "row_key ?out [''population''] ?r1 = [NA]"
    by code_simp
  have o1: "?r1 \<in> set (rows ?out)"
    by simp
  have pr: "processed_rows stamp_2021 ?out = Some [?p1, ?p5]"
    by code_simp
  have nd: "Unparseable \<notin> set (map date [?p1, ?p5])"
    by simp
  have nz: "Some 0 \<notin> set (map population [?p1, ?p5])"
    by simp
  note w = null_population_rows_retained [where stamp = stamp_2021, OF h]
  from w have B: "\<forall>r \<in> set (rows ?df). complete_row ?df r \<and>
            selected_country Map.empty ?df r \<longrightarrow>
            (\<exists>r0 \<in> set (rows ?df). complete_row ?df r0 \<and>
               row_key ?df [''location'', ''date''] r0 =
                 row_key ?df [''location'', ''date''] r \<and>
               row_key ?df required_columns r0 \<in> set (rows ?out))"
    by (rule conjunct1 [OF conjunct2])
  from B m1 c1 s1 have b1: "\<exists>r0 \<in> set (rows ?df).
      row_key ?df [''location'', ''date''] r0 = row_key ?df [''location'', ''date''] ?r1 \<and>
      row_key ?df required_columns r0 \<in> set [?r1, ?r5]"
    by fastforce
  from w have C: "\<forall>r \<in> set (rows ?df). complete_row ?df r \<and>
            selected_country Map.empty ?df r \<and>
            (\<forall>r' \<in> set (rows ?df).
               row_key ?df [''location'', ''date''] r' =
                 row_key ?df [''location'', ''date''] r \<longrightarrow> r' = r) \<longrightarrow>
            row_key ?df required_columns r \<in> set (rows ?out)"
    by (rule conjunct1 [OF conjunct2 [OF conjunct2]])
  from C m5 c5 s5 u5 have b5: "row_key ?df required_columns ?r5 \<in> set [?r1, ?r5]"
    by fastforce
  from w have E: "distinct (columns ?df) \<longrightarrow>
            columns ?out = required_columns \<and>
            (\<forall>x \<in> set (rows ?out). \<forall>p.
               as_prow stamp_2021 x = Some p \<and> row_key ?out [''population''] x = [NA] \<longrightarrow>
               population p = None \<and> incidencia_diaria p = None)"
    by (rule conjunct1 [OF conjunct2 [OF conjunct2 [OF conjunct2 [OF conjunct2]]]])
  from E dist o1 a1 k1 have e1: "incidencia_diaria ?p1 = None"
    by blast
  from w have F: "\<forall>rs. processed_rows stamp_2021 ?out = Some rs \<longrightarrow>
            (\<forall>e. (metrica_incidencia_7d rs = Inl e) =
                  (Unparseable \<in> set (map date rs) \<and> e = DateParseError \<or>
                   Unparseable \<notin> set (map date rs) \<and> Some 0 \<in> set (map population rs) \<and>
                   e = DataError)) \<and>
            (\<forall>e. (metrica_factor_crec_7d rs = Inl e) =
                  (Unparseable \<in> set (map date rs) \<and> e = DateParseError))"
    by (rule conjunct2 [OF conjunct2 [OF conjunct2 [OF conjunct2 [OF conjunct2]]]])
  from F pr nd nz have f: "\<nexists>e. metrica_incidencia_7d [?p1, ?p5] = Inl e"
    by blast
  from F pr nd have g: "\<nexists>e. metrica_factor_crec_7d [?p1, ?p5] = Inl e"
    by blast
  show ?thesis
    by (rule conjI [OF h conjI [OF c1 conjI [OF s1 conjI [OF b1 conjI [OF b5 conjI [OF dist
          conjI [OF a1 conjI [OF e1 conjI [OF pr conjI [OF f g]]]]]]]]]])
qed

end
